theory Spec2Isabelle
  imports Complex_Main
begin

section \<open>Python strings\<close>

text \<open>
  A Python \<open>str\<close> is modelled as a HOL \<open>string\<close>; a \<open>char\<close> stands for a code point
  below 256, read through \<open>of_char\<close>.
\<close>

definition code :: "char \<Rightarrow> nat" where
  "code c = of_char c"

text \<open>
  \<open>str.isspace\<close> on the code points below 256: tab to carriage return, the four
  separators \<open>0x1c\<close> to \<open>0x1f\<close>, the space, \<open>0x85\<close> and \<open>0xa0\<close>.
\<close>

definition is_space :: "char \<Rightarrow> bool" where
  "is_space c \<longleftrightarrow>
     (9 \<le> code c \<and> code c \<le> 13) \<or> (28 \<le> code c \<and> code c \<le> 32) \<or>
     code c = 133 \<or> code c = 160"

definition lstrip :: "string \<Rightarrow> string" where
  "lstrip s = dropWhile is_space s"

definition rstrip :: "string \<Rightarrow> string" where
  "rstrip s = rev (dropWhile is_space (rev s))"

text \<open>\<^verbatim>\<open>s.strip()\<close>\<close>

definition strip :: "string \<Rightarrow> string" where
  "strip s = rstrip (lstrip s)"

text \<open>
  \<^verbatim>\<open>s.split()\<close>: the maximal runs of non-whitespace characters, in order; the second
  argument is the run read so far.
\<close>

fun split_run :: "string \<Rightarrow> string \<Rightarrow> string list" where
  "split_run [] w = (if w = [] then [] else [w])"
| "split_run (c # cs) w =
     (if is_space c then (if w = [] then split_run cs [] else w # split_run cs [])
      else split_run cs (w @ [c]))"

definition split :: "string \<Rightarrow> string list" where
  "split s = split_run s []"

text \<open>\<^verbatim>\<open>s.split(sep)\<close> for a separator of one character: empty pieces are kept.\<close>

fun split_sep :: "char \<Rightarrow> string \<Rightarrow> string \<Rightarrow> string list" where
  "split_sep sep [] w = [w]"
| "split_sep sep (c # cs) w =
     (if c = sep then w # split_sep sep cs [] else split_sep sep cs (w @ [c]))"

definition split_on :: "char \<Rightarrow> string \<Rightarrow> string list" where
  "split_on sep s = split_sep sep s []"

definition startswith :: "string \<Rightarrow> string \<Rightarrow> bool" where
  "startswith s p \<longleftrightarrow> take (length p) s = p"

definition endswith :: "string \<Rightarrow> string \<Rightarrow> bool" where
  "endswith s p \<longleftrightarrow> length p \<le> length s \<and> drop (length s - length p) s = p"

text \<open>\<^verbatim>\<open>xs[i:]\<close> and \<^verbatim>\<open>xs[:n]\<close> for a non-negative \<open>n\<close>, as Python slices a sequence.\<close>

definition slice_from :: "int \<Rightarrow> 'a list \<Rightarrow> 'a list" where
  "slice_from i xs =
     (if i < 0 then drop (nat (int (length xs) + i)) xs else drop (nat i) xs)"

definition slice_to :: "nat \<Rightarrow> 'a list \<Rightarrow> 'a list" where
  "slice_to n xs = take n xs"

section \<open>Python values\<close>

text \<open>
  A Python \<open>float\<close> is a finite number, an infinity or a NaN; \<open>float_lt\<close> is \<open><\<close> on
  floats, false as soon as one side is a NaN.
\<close>

datatype pyfloat = Finite rat | PosInf | NegInf | NaN

fun float_lt :: "pyfloat \<Rightarrow> pyfloat \<Rightarrow> bool" where
  "float_lt NaN _ = False"
| "float_lt _ NaN = False"
| "float_lt (Finite a) (Finite b) = (a < b)"
| "float_lt (Finite _) PosInf = True"
| "float_lt (Finite _) NegInf = False"
| "float_lt PosInf _ = False"
| "float_lt NegInf NegInf = False"
| "float_lt NegInf _ = True"

text \<open>The exceptions that the modelled code can raise.\<close>

datatype error = ValueError | KeyError | AttributeError | TypeError

text \<open>
  What \<open>json.loads\<close> returns: \<open>None\<close>, a bool, an int, a float, a str, a list or a
  dict. A dict is a list of bindings read from the front (\<open>map_of\<close>).
\<close>

datatype json =
    JNull
  | JBool bool
  | JInt int
  | JFloat pyfloat
  | JStr string
  | JArr "json list"
  | JObj "(string \<times> json) list"

text \<open>\<^verbatim>\<open>isinstance(v, dict)\<close>\<close>

fun is_dict :: "json \<Rightarrow> bool" where
  "is_dict (JObj _) = True"
| "is_dict _ = False"

text \<open>
  \<^verbatim>\<open>d.get(key, default)\<close>; only a dict has the method, on any other value the call
  raises \<open>AttributeError\<close>.
\<close>

fun get :: "json \<Rightarrow> string \<Rightarrow> json \<Rightarrow> error + json" where
  "get (JObj kvs) key dflt = Inr (case map_of kvs key of Some v \<Rightarrow> v | None \<Rightarrow> dflt)"
| "get _ key dflt = Inl AttributeError"

text \<open>\<^verbatim>\<open>d[key]\<close> on a dict.\<close>

definition item :: "(string \<times> json) list \<Rightarrow> string \<Rightarrow> error + json" where
  "item kvs key = (case map_of kvs key of Some v \<Rightarrow> Inr v | None \<Rightarrow> Inl KeyError)"

text \<open>The truth value of a Python value, as \<open>if\<close> and \<open>or\<close> test it.\<close>

fun truthy :: "json \<Rightarrow> bool" where
  "truthy JNull = False"
| "truthy (JBool b) = b"
| "truthy (JInt i) = (i \<noteq> 0)"
| "truthy (JFloat f) = (f \<noteq> Finite 0)"
| "truthy (JStr s) = (s \<noteq> [])"
| "truthy (JArr xs) = (xs \<noteq> [])"
| "truthy (JObj kvs) = (kvs \<noteq> [])"

text \<open>A variable that holds \<open>None\<close> or a str.\<close>

fun truthy_str :: "string option \<Rightarrow> bool" where
  "truthy_str None = False"
| "truthy_str (Some s) = (s \<noteq> [])"

text \<open>The character class \<open>[a-zA-Z0-9-]\<close> of the regular expression in \<open>cwd_to_project_dir\<close>.\<close>

definition in_class :: "char \<Rightarrow> bool" where
  "in_class c \<longleftrightarrow>
     (code CHR ''a'' \<le> code c \<and> code c \<le> code CHR ''z'') \<or>
     (code CHR ''A'' \<le> code c \<and> code c \<le> code CHR ''Z'') \<or>
     (code CHR ''0'' \<le> code c \<and> code c \<le> code CHR ''9'') \<or>
     c = CHR ''-''"

section \<open>Directory-to-folder-name encoding\<close>

text \<open>
  \<^verbatim>\<open>encoded = re.sub(r"[^a-zA-Z0-9-]", "-", cwd)\<close>: every single character matched by the
  negated class is replaced by one hyphen, the others are copied.
\<close>

definition cwd_to_project_dir :: "string \<Rightarrow> string" where
  "cwd_to_project_dir cwd = map (\<lambda>c. if in_class c then c else CHR ''-'') cwd"

section \<open>The process discoverer: candidate pids\<close>

text \<open>
  The body of the loop over the lines of \<open>ps aux\<close> in \<open>get_active_claude_sessions\<close>.
  The builtins \<open>float\<close> and \<open>int\<close> are the parameters \<open>pyfloat_of\<close> and \<open>pyint_of\<close>,
  \<open>None\<close> standing for their \<open>ValueError\<close>. The result is \<open>Inr None\<close> when the row
  is passed over, \<open>Inr (Some t)\<close> when \<open>t\<close> is appended to \<open>claude_pids\<close>, and
  \<open>Inl ValueError\<close> when \<open>int(pid)\<close> raises, which nothing catches.
\<close>

definition scan_row ::
  "(string \<Rightarrow> pyfloat option) \<Rightarrow> (string \<Rightarrow> int option) \<Rightarrow> string \<Rightarrow>
     error + (int \<times> pyfloat \<times> string) option" where
  "scan_row pyfloat_of pyint_of line =
     (let parts = split line in
      if length parts < 11 then Inr None
      else
        let comm = parts ! 10; pid = parts ! 1; tty = parts ! 6; cpu = parts ! 2 in
        if endswith comm ''/claude'' \<or> comm = ''claude'' then
          if startswith tty ''s0'' \<and> CHR ''+'' \<in> set (parts ! 7) then
            let cpu_val = (case pyfloat_of cpu of Some v \<Rightarrow> v | None \<Rightarrow> Finite 0) in
            if float_lt cpu_val (Finite 1) then Inr None
            else (case pyint_of pid of
                    None \<Rightarrow> Inl ValueError
                  | Some p \<Rightarrow> Inr (Some (p, cpu_val, parts ! 8)))
          else Inr None
        else Inr None)"

fun scan_rows ::
  "(string \<Rightarrow> pyfloat option) \<Rightarrow> (string \<Rightarrow> int option) \<Rightarrow> string list \<Rightarrow>
     (int \<times> pyfloat \<times> string) list \<Rightarrow> error + (int \<times> pyfloat \<times> string) list" where
  "scan_rows pyfloat_of pyint_of [] claude_pids = Inr claude_pids"
| "scan_rows pyfloat_of pyint_of (line # rest) claude_pids =
     (case scan_row pyfloat_of pyint_of line of
        Inl e \<Rightarrow> Inl e
      | Inr None \<Rightarrow> scan_rows pyfloat_of pyint_of rest claude_pids
      | Inr (Some t) \<Rightarrow> scan_rows pyfloat_of pyint_of rest (claude_pids @ [t]))"

text \<open>
  The list \<open>claude_pids\<close> of \<open>get_active_claude_sessions\<close> once the loop over
  \<^verbatim>\<open>result.stdout.strip().split("\n")\<close> has ended, from the output of \<open>ps aux\<close>.
\<close>

definition claude_pids ::
  "(string \<Rightarrow> pyfloat option) \<Rightarrow> (string \<Rightarrow> int option) \<Rightarrow> string \<Rightarrow>
     error + (int \<times> pyfloat \<times> string) list" where
  "claude_pids pyfloat_of pyint_of ps_stdout =
     scan_rows pyfloat_of pyint_of (split_on (CHR 0x0A) (strip ps_stdout)) []"





section \<open>The history correlator\<close>

text \<open>
  The history log is \<open>None\<close> when the file does not exist and the list of its lines
  otherwise. \<open>json.loads\<close> is the parameter \<open>json_loads\<close>, with \<open>None\<close> for its
  \<open>JSONDecodeError\<close>, the one exception the loops catch.
\<close>

fun history_scan ::
  "(string \<Rightarrow> json option) \<Rightarrow> string \<Rightarrow> string list \<Rightarrow> json \<Rightarrow> error + json" where
  "history_scan json_loads cwd [] best = Inr best"
| "history_scan json_loads cwd (line # rest) best =
     (case json_loads (strip line) of
        None \<Rightarrow> history_scan json_loads cwd rest best
      | Some entry \<Rightarrow>
          (case get entry ''project'' (JStr []) of
             Inl e \<Rightarrow> Inl e
           | Inr p \<Rightarrow>
               if p = JStr cwd then
                 (case get entry ''sessionId'' JNull of
                    Inl e \<Rightarrow> Inl e
                  | Inr sid \<Rightarrow> history_scan json_loads cwd rest sid)
               else history_scan json_loads cwd rest best))"

definition find_session_id_for_cwd ::
  "(string \<Rightarrow> json option) \<Rightarrow> string list option \<Rightarrow> string \<Rightarrow> error + json" where
  "find_session_id_for_cwd json_loads history cwd =
     (case history of
        None \<Rightarrow> Inr JNull
      | Some lines \<Rightarrow> history_scan json_loads cwd lines JNull)"

text \<open>
  \<^verbatim>\<open>entry.get("display", "")[:120]\<close>: a str and a list can be sliced, the other
  values raise an exception that the loop does not catch.
\<close>

fun slice_120 :: "json \<Rightarrow> error + json" where
  "slice_120 (JStr s) = Inr (JStr (slice_to 120 s))"
| "slice_120 (JArr xs) = Inr (JArr (slice_to 120 xs))"
| "slice_120 _ = Inl TypeError"

fun first_prompt_scan ::
  "(string \<Rightarrow> json option) \<Rightarrow> string \<Rightarrow> string list \<Rightarrow> error + json" where
  "first_prompt_scan json_loads session_id [] = Inr JNull"
| "first_prompt_scan json_loads session_id (line # rest) =
     (case json_loads (strip line) of
        None \<Rightarrow> first_prompt_scan json_loads session_id rest
      | Some entry \<Rightarrow>
          (case get entry ''sessionId'' JNull of
             Inl e \<Rightarrow> Inl e
           | Inr sid \<Rightarrow>
               if sid = JStr session_id then
                 (case get entry ''display'' (JStr []) of
                    Inl e \<Rightarrow> Inl e
                  | Inr d \<Rightarrow> slice_120 d)
               else first_prompt_scan json_loads session_id rest))"

definition get_first_prompt ::
  "(string \<Rightarrow> json option) \<Rightarrow> string list option \<Rightarrow> string \<Rightarrow> error + json" where
  "get_first_prompt json_loads history session_id =
     (case history of
        None \<Rightarrow> Inr JNull
      | Some lines \<Rightarrow> first_prompt_scan json_loads session_id lines)"

text \<open>
  The history correlator in the words of its description: among the values of the
  parseable lines, those whose project field (the empty string when there is none) is
  the target directory; the session id of the last of them, \<open>None\<close> when there is none.
\<close>

definition parseable :: "(string \<Rightarrow> json option) \<Rightarrow> string list \<Rightarrow> json list" where
  "parseable json_loads lines = List.map_filter (\<lambda>line. json_loads (strip line)) lines"

definition field :: "json \<Rightarrow> string \<Rightarrow> json \<Rightarrow> json" where
  "field entry key dflt = (case get entry key dflt of Inr v \<Rightarrow> v | Inl e \<Rightarrow> dflt)"

definition matching :: "(string \<Rightarrow> json option) \<Rightarrow> string \<Rightarrow> string list \<Rightarrow> json list" where
  "matching json_loads cwd lines =
     filter (\<lambda>entry. field entry ''project'' (JStr []) = JStr cwd) (parseable json_loads lines)"

definition last_session_id :: "(string \<Rightarrow> json option) \<Rightarrow> string \<Rightarrow> string list \<Rightarrow> json" where
  "last_session_id json_loads cwd lines =
     (case rev (matching json_loads cwd lines) of
        [] \<Rightarrow> JNull
      | entry # _ \<Rightarrow> field entry ''sessionId'' JNull)"

section \<open>Text extraction\<close>

definition open_tag :: string where
  "open_tag = ''<system-reminder>''"

definition close_tag :: string where
  "close_tag = ''</system-reminder>''"

text \<open>
  The lazy \<open>.*?\<close> followed by the closing tag: the text after the first closing tag,
  if there is one.
\<close>

fun after_close :: "string \<Rightarrow> string option" where
  "after_close [] = None"
| "after_close (c # cs) =
     (if startswith (c # cs) close_tag then Some (drop (length close_tag) (c # cs))
      else after_close cs)"

text \<open>
  \<^verbatim>\<open>re.sub(r"<system-reminder>.*?</system-reminder>", "", text, flags=re.DOTALL)\<close>:
  one pass from the left; where a match starts it is dropped and the pass goes on behind
  it, elsewhere the character is copied.
\<close>

function sub_reminders :: "string \<Rightarrow> string" where
  "sub_reminders [] = []"
| "sub_reminders (c # cs) =
     (if startswith (c # cs) open_tag then
        (case after_close (drop (length open_tag) (c # cs)) of
           Some rest \<Rightarrow> sub_reminders rest
         | None \<Rightarrow> c # sub_reminders cs)
      else c # sub_reminders cs)"
  by pat_completeness auto
termination
proof (relation "measure length")
  fix c cs rest
  assume found: "after_close (drop (length open_tag) (c # cs)) = Some rest"
  have shorter: "after_close s = Some r \<Longrightarrow> length r \<le> length s" for s r
    by (induction s) (auto split: if_splits)
  from found have "length rest \<le> length (drop (length open_tag) (c # cs))"
    by (rule shorter)
  then show "(rest, c # cs) \<in> measure length"
    by (simp add: open_tag_def)
qed simp_all

text \<open>
  The body shared by the two branches of \<open>_extract_user_text\<close>, from the str found:
  \<open>None\<close> when the test fails and nothing is returned, \<open>Some r\<close> when \<open>r\<close> is returned.
\<close>

definition text_result :: "string \<Rightarrow> string option option" where
  "text_result raw =
     (let text = strip raw in
      if text \<noteq> [] \<and> \<not> startswith text ''<local-command'' \<and> \<not> startswith text ''<command-''
      then (let text' = strip (sub_reminders text) in
            Some (if text' \<noteq> [] then Some text' else None))
      else None)"

fun extract_blocks :: "json list \<Rightarrow> error + string option" where
  "extract_blocks [] = Inr None"
| "extract_blocks (c # cs) =
     (if is_dict c \<and> get c ''type'' JNull = Inr (JStr ''text'') then
        (case c of
           JObj kvs \<Rightarrow>
             (case item kvs ''text'' of
                Inl e \<Rightarrow> Inl e
              | Inr (JStr raw) \<Rightarrow>
                  (case text_result raw of
                     Some r \<Rightarrow> Inr r
                   | None \<Rightarrow> extract_blocks cs)
              | Inr _ \<Rightarrow> Inl AttributeError)
         | _ \<Rightarrow> extract_blocks cs)
      else extract_blocks cs)"

text \<open>\<open>_extract_user_text\<close>\<close>

definition extract_user_text :: "json \<Rightarrow> error + string option" where
  "extract_user_text d =
     (case get d ''message'' (JObj []) of
        Inl e \<Rightarrow> Inl e
      | Inr msg \<Rightarrow>
          (case (if is_dict msg then get msg ''content'' (JStr [])
                 else get d ''content'' (JStr [])) of
             Inl e \<Rightarrow> Inl e
           | Inr (JStr raw) \<Rightarrow>
               (case text_result raw of Some r \<Rightarrow> Inr r | None \<Rightarrow> Inr None)
           | Inr (JArr blocks) \<Rightarrow> extract_blocks blocks
           | Inr _ \<Rightarrow> Inr None))"





definition is_text_block :: "json \<Rightarrow> bool" where
  "is_text_block b \<longleftrightarrow> is_dict b \<and> get b ''type'' JNull = Inr (JStr ''text'')"



section \<open>The session-context extractor\<close>

text \<open>
  The loop over \<^verbatim>\<open>lines[:30]\<close> that looks for the first user prompt. A \<open>KeyError\<close>
  is caught like the \<open>JSONDecodeError\<close> and the loop goes on; any other exception
  leaves the function.
\<close>

fun first_user_scan ::
  "(string \<Rightarrow> json option) \<Rightarrow> string list \<Rightarrow> string option \<Rightarrow> error + string option" where
  "first_user_scan json_loads [] first_user = Inr first_user"
| "first_user_scan json_loads (line # rest) first_user =
     (if truthy_str first_user then Inr first_user
      else
        (case json_loads (strip line) of
           None \<Rightarrow> first_user_scan json_loads rest first_user
         | Some d \<Rightarrow>
             (case get d ''type'' JNull of
                Inl e \<Rightarrow> Inl e
              | Inr t \<Rightarrow>
                  if t = JStr ''user'' then
                    (case extract_user_text d of
                       Inl e \<Rightarrow>
                         if e = KeyError then first_user_scan json_loads rest first_user
                         else Inl e
                     | Inr text \<Rightarrow>
                         first_user_scan json_loads rest
                           (if truthy_str text then map_option (slice_to 200) text
                            else first_user))
                  else first_user_scan json_loads rest first_user)))"

text \<open>The variables that the loop over the tail of the transcript updates.\<close>

record tail_state =
  last_user :: "string option"
  last_assistant :: "string option"
  recent_tools :: "json list"
  last_tool_name :: json

text \<open>
  One content block of an assistant message: the two \<open>if\<close> statements in turn. The
  first can raise (\<^verbatim>\<open>c["text"]\<close> on a missing key, \<open>.strip()\<close> on a value that is
  no str) before anything is assigned.
\<close>

definition block_step :: "json \<Rightarrow> tail_state \<Rightarrow> error + tail_state" where
  "block_step c st =
     (case (if is_dict c \<and> get c ''type'' JNull = Inr (JStr ''text'') then
              (case c of
                 JObj kvs \<Rightarrow>
                   (case item kvs ''text'' of
                      Inl e \<Rightarrow> Inl e
                    | Inr (JStr raw) \<Rightarrow>
                        Inr (if strip raw \<noteq> [] then st\<lparr>last_assistant := Some (strip raw)\<rparr>
                             else st)
                    | Inr _ \<Rightarrow> Inl AttributeError)
               | _ \<Rightarrow> Inr st)
            else Inr st) of
        Inl e \<Rightarrow> Inl e
      | Inr st1 \<Rightarrow>
          if is_dict c \<and> get c ''type'' JNull = Inr (JStr ''tool_use'') then
            (case get c ''name'' (JStr []) of
               Inl e \<Rightarrow> Inl e
             | Inr name \<Rightarrow>
                 Inr (st1\<lparr>last_tool_name := name, recent_tools := recent_tools st1 @ [name]\<rparr>))
          else Inr st1)"

text \<open>
  The loop over the content blocks: the state reached, and the exception that ended
  the loop if one did.
\<close>

fun assistant_blocks :: "json list \<Rightarrow> tail_state \<Rightarrow> tail_state \<times> error option" where
  "assistant_blocks [] st = (st, None)"
| "assistant_blocks (c # cs) st =
     (case block_step c st of
        Inl e \<Rightarrow> (st, Some e)
      | Inr st' \<Rightarrow> assistant_blocks cs st')"

text \<open>The body of the \<open>try\<close> for one line of the tail.\<close>

definition tail_line ::
  "(string \<Rightarrow> json option) \<Rightarrow> string \<Rightarrow> tail_state \<Rightarrow> tail_state \<times> error option" where
  "tail_line json_loads line st =
     (case json_loads (strip line) of
        None \<Rightarrow> (st, None)
      | Some d \<Rightarrow>
          (case get d ''type'' (JStr []) of
             Inl e \<Rightarrow> (st, Some e)
           | Inr t \<Rightarrow>
               (case (if t = JStr ''user'' then
                        (case extract_user_text d of
                           Inl e \<Rightarrow> Inl e
                         | Inr text \<Rightarrow>
                             Inr (if truthy_str text
                                  then st\<lparr>last_user := map_option (slice_to 200) text\<rparr>
                                  else st))
                      else Inr st) of
                  Inl e \<Rightarrow> (st, Some e)
                | Inr st1 \<Rightarrow>
                    if t = JStr ''assistant'' then
                      (case get d ''message'' (JObj []) of
                         Inl e \<Rightarrow> (st1, Some e)
                       | Inr msg \<Rightarrow>
                           (case (if is_dict msg then get msg ''content'' (JArr [])
                                  else Inr (JArr [])) of
                              Inl e \<Rightarrow> (st1, Some e)
                            | Inr (JArr blocks) \<Rightarrow> assistant_blocks blocks st1
                            | Inr _ \<Rightarrow> (st1, None)))
                    else (st1, None))))"

fun tail_scan ::
  "(string \<Rightarrow> json option) \<Rightarrow> string list \<Rightarrow> tail_state \<Rightarrow> error + tail_state" where
  "tail_scan json_loads [] st = Inr st"
| "tail_scan json_loads (line # rest) st =
     (case tail_line json_loads line st of
        (st', None) \<Rightarrow> tail_scan json_loads rest st'
      | (st', Some e) \<Rightarrow>
          if e = KeyError then tail_scan json_loads rest st' else Inl e)"

text \<open>
  What the loop over the tail keeps true of its two tool variables: once a tool name has
  been recorded, \<open>last_tool_name\<close> is the name recorded last.
\<close>

definition tools_agree :: "tail_state \<Rightarrow> bool" where
  "tools_agree st \<longleftrightarrow> (recent_tools st \<noteq> [] \<longrightarrow> last_tool_name st = last (recent_tools st))"

text \<open>
  The tool calls of a transcript in the words of the description. The content blocks of
  an assistant entry are the list under \<open>content\<close> of its message; a tool call is a
  dict of type \<open>tool_use\<close>, its name the value under \<open>name\<close> (the empty string when
  there is none); the tool names of a sequence of lines are those of its parseable
  lines, in order. A text block is complete when it has a \<open>text\<close> key.
\<close>

definition assistant_content :: "json \<Rightarrow> json list" where
  "assistant_content d =
     (if field d ''type'' (JStr []) = JStr ''assistant'' then
        (case field d ''message'' (JObj []) of
           JObj m \<Rightarrow>
             (case field (JObj m) ''content'' (JArr []) of
                JArr blocks \<Rightarrow> blocks
              | _ \<Rightarrow> [])
         | _ \<Rightarrow> [])
      else [])"

definition is_tool_use :: "json \<Rightarrow> bool" where
  "is_tool_use b \<longleftrightarrow> is_dict b \<and> get b ''type'' JNull = Inr (JStr ''tool_use'')"

definition tool_names :: "json list \<Rightarrow> json list" where
  "tool_names blocks = map (\<lambda>b. field b ''name'' (JStr [])) (filter is_tool_use blocks)"

definition tail_tool_names :: "(string \<Rightarrow> json option) \<Rightarrow> string list \<Rightarrow> json list" where
  "tail_tool_names json_loads lines =
     concat (map (\<lambda>d. tool_names (assistant_content d)) (parseable json_loads lines))"

definition has_text :: "json \<Rightarrow> bool" where
  "has_text b = (case b of JObj kvs \<Rightarrow> map_of kvs ''text'' \<noteq> None | _ \<Rightarrow> False)"

text \<open>
  What a stretch of the loop does to the two tool variables when it records the given
  names: they are appended to \<open>recent_tools\<close>, and \<open>last_tool_name\<close> becomes the last
  of them.
\<close>

definition recorded :: "tail_state \<Rightarrow> json list \<Rightarrow> tail_state \<Rightarrow> bool" where
  "recorded st names st' \<longleftrightarrow>
     recent_tools st' = recent_tools st @ names \<and>
     last_tool_name st' = (if names = [] then last_tool_name st else last names)"

text \<open>The dictionary that \<open>extract_session_context\<close> returns when it has read the file.\<close>

record session_context =
  firstPrompt_c :: "string option"
  lastUserMessage :: "string option"
  lastAssistantResponse :: "string option"
  recentTools :: "json list"
  lastTool :: json

text \<open>
  The transcript is \<open>None\<close> when no file is given, the file does not exist or reading it
  fails, and the list of its lines otherwise; \<open>Inr None\<close> is the empty dictionary
  \<^verbatim>\<open>{}\<close> returned in the first case.
\<close>

definition extract_session_context ::
  "(string \<Rightarrow> json option) \<Rightarrow> string list option \<Rightarrow> int \<Rightarrow> error + session_context option" where
  "extract_session_context json_loads session_file max_tail_lines =
     (case session_file of
        None \<Rightarrow> Inr None
      | Some lines \<Rightarrow>
          (case first_user_scan json_loads (slice_to 30 lines) None of
             Inl e \<Rightarrow> Inl e
           | Inr first_user \<Rightarrow>
               (case tail_scan json_loads (slice_from (- max_tail_lines) lines)
                       \<lparr>last_user = None, last_assistant = None, recent_tools = [],
                        last_tool_name = JNull\<rparr> of
                  Inl e \<Rightarrow> Inl e
                | Inr st \<Rightarrow>
                    Inr (Some
                      \<lparr>firstPrompt_c = first_user,
                       lastUserMessage = last_user st,
                       lastAssistantResponse =
                         (if truthy_str (last_assistant st)
                          then map_option (slice_to 400) (last_assistant st) else None),
                       recentTools = slice_from (- 5) (recent_tools st),
                       lastTool = last_tool_name st\<rparr>))))"

section \<open>The registry\<close>

text \<open>
  A conversation entry is the dictionary built in \<open>cmd_save\<close>; \<open>completedAt\<close> is the
  key that \<open>cmd_done\<close> adds. The field \<open>id\<close> is named \<open>id_e\<close> here. The description
  and the first prompt come from the history log and are Python values.
\<close>

record entry =
  id_e :: int
  sessionId :: string
  project :: string
  description :: json
  firstPrompt :: json
  savedAt :: string
  status :: string
  completedAt :: "string option"

record registry =
  conversations :: "entry list"

text \<open>
  \<^verbatim>\<open>max(c["id"] for c in registry["conversations"]) + 1\<close>; Python's \<open>max\<close> folds the
  iterable from its first element.
\<close>

definition next_id :: "registry \<Rightarrow> int" where
  "next_id registry =
     (case conversations registry of
        [] \<Rightarrow> 1
      | c # cs \<Rightarrow> fold (\<lambda>d m. if m < id_e d then id_e d else m) cs (id_e c) + 1)"

text \<open>
  The registry as the commands keep it: no two entries carry the same session id.
  \<open>cmd_save\<close> appends an entry only for a session id that no entry carries, and no
  command changes the session id of an entry.
\<close>

definition one_entry_per_session :: "registry \<Rightarrow> bool" where
  "one_entry_per_session r \<longleftrightarrow> distinct (map sessionId (conversations r))"

section \<open>The commands on the registry\<close>

text \<open>
  A printed line is the list of the pieces of its f-string: the literal text and the
  values put in between.
\<close>

datatype piece = Lit string | Num int | Str string | Val json

text \<open>
  What a command reads and writes: the registry file (\<open>None\<close> while it does not exist),
  the history log, the lines printed, and how often the registry file has been written.
\<close>

record world =
  registry_file :: "registry option"
  history_file :: "string list option"
  stdout :: "piece list list"
  registry_writes :: nat

text \<open>
  How a command ends: it returns, it calls \<open>sys.exit\<close>, or an exception leaves it; the
  exit code of the process follows.
\<close>

datatype ending = Returned | Exited int | Raised error

fun exit_code :: "ending \<Rightarrow> int" where
  "exit_code Returned = 0"
| "exit_code (Exited n) = n"
| "exit_code (Raised e) = 1"

definition load_registry :: "world \<Rightarrow> registry" where
  "load_registry w =
     (case registry_file w of Some r \<Rightarrow> r | None \<Rightarrow> \<lparr>conversations = []\<rparr>)"

definition save_registry :: "registry \<Rightarrow> world \<Rightarrow> world" where
  "save_registry r w = w\<lparr>registry_file := Some r, registry_writes := Suc (registry_writes w)\<rparr>"

definition print :: "piece list \<Rightarrow> world \<Rightarrow> world" where
  "print line w = w\<lparr>stdout := stdout w @ [line]\<rparr>"

text \<open>
  \<^verbatim>\<open>for c in registry["conversations"]: if test(c): ...\<close> where the body ends the
  command: the position of the first entry that passes the test.
\<close>

fun first_index :: "('a \<Rightarrow> bool) \<Rightarrow> 'a list \<Rightarrow> nat option" where
  "first_index test [] = None"
| "first_index test (c # cs) =
     (if test c then Some 0 else map_option Suc (first_index test cs))"

text \<open>\<^verbatim>\<open>args.description or alt\<close>\<close>

fun description_or :: "string option \<Rightarrow> json \<Rightarrow> json" where
  "description_or None alt = alt"
| "description_or (Some d) alt = (if d \<noteq> [] then JStr d else alt)"

text \<open>
  \<open>cmd_save\<close>; \<open>now\<close> is \<^verbatim>\<open>datetime.now().isoformat()\<close>, the three arguments after it
  are \<open>args.session_id\<close>, \<open>args.project\<close> and \<open>args.description\<close>.
\<close>

definition cmd_save ::
  "(string \<Rightarrow> json option) \<Rightarrow> string \<Rightarrow> string \<Rightarrow> string \<Rightarrow> string option \<Rightarrow> world \<Rightarrow>
     ending \<times> world" where
  "cmd_save json_loads now session_id project_arg description_arg w =
     (let registry = load_registry w; cs = conversations registry in
      case first_index (\<lambda>c. sessionId c = session_id) cs of
        Some i \<Rightarrow>
          (let c = cs ! i in
           if status c = ''active'' then
             (Exited 0,
              print [Lit ''Session already saved as #'', Num (id_e c), Lit '': '',
                     Val (description c)] w)
           else
             (let c' = c\<lparr>status := ''active'', savedAt := now,
                          description := description_or description_arg (description c)\<rparr>;
                  w1 = save_registry (registry\<lparr>conversations := cs[i := c']\<rparr>) w;
                  w2 = print [Lit ''Reactivated #'', Num (id_e c'), Lit '': '',
                              Val (description c')] w1;
                  w3 = print [Lit ''  Session: '', Str session_id] w2
              in (Returned,
                  print [Lit [CHR 0x0A], Lit ''Resume later with: claude --resume '',
                         Str session_id] w3)))
      | None \<Rightarrow>
          (case get_first_prompt json_loads (history_file w) session_id of
             Inl e \<Rightarrow> (Raised e, w)
           | Inr first_prompt \<Rightarrow>
               (let description' =
                      description_or description_arg
                        (if truthy first_prompt then first_prompt else JStr ''No description'');
                    entry = \<lparr>id_e = next_id registry, sessionId = session_id,
                             project = project_arg, description = description',
                             firstPrompt = first_prompt, savedAt = now,
                             status = ''active'', completedAt = None\<rparr>;
                    w1 = save_registry (registry\<lparr>conversations := cs @ [entry]\<rparr>) w;
                    w2 = print [Lit ''Saved as #'', Num (id_e entry), Lit '': '',
                                Val description'] w1;
                    w3 = print [Lit ''  Session: '', Str session_id] w2;
                    w4 = print [Lit ''  Project: '', Str project_arg] w3
                in (Returned,
                    print [Lit [CHR 0x0A], Lit ''Resume later with: claude --resume '',
                           Str session_id] w4))))"

text \<open>\<open>cmd_done\<close> and \<open>cmd_remove\<close>, with \<open>args.id\<close> as \<open>id_arg\<close>.\<close>

definition cmd_done :: "string \<Rightarrow> int \<Rightarrow> world \<Rightarrow> ending \<times> world" where
  "cmd_done now id_arg w =
     (let registry = load_registry w; cs = conversations registry in
      case first_index (\<lambda>c. id_e c = id_arg) cs of
        Some i \<Rightarrow>
          (let c' = (cs ! i)\<lparr>status := ''done'', completedAt := Some now\<rparr>;
               w1 = save_registry (registry\<lparr>conversations := cs[i := c']\<rparr>) w
           in (Returned,
               print [Lit ''Marked #'', Num id_arg, Lit '' as done: '', Val (description c')] w1))
      | None \<Rightarrow>
          (Exited 1, print [Lit ''No conversation found with ID #'', Num id_arg] w))"

definition cmd_remove :: "int \<Rightarrow> world \<Rightarrow> ending \<times> world" where
  "cmd_remove id_arg w =
     (let registry = load_registry w; cs = conversations registry in
      case first_index (\<lambda>c. id_e c = id_arg) cs of
        Some i \<Rightarrow>
          (let c' = (cs ! i)\<lparr>status := ''removed''\<rparr>;
               w1 = save_registry (registry\<lparr>conversations := cs[i := c']\<rparr>) w
           in (Returned,
               print [Lit ''Removed #'', Num id_arg, Lit '': '', Val (description c')] w1))
      | None \<Rightarrow>
          (Exited 1, print [Lit ''No conversation found with ID #'', Num id_arg] w))"

section \<open>Worked examples\<close>

text \<open>Two entries and a registry of two sessions, one finished and one active.\<close>

definition entry_done :: entry where
  "entry_done =
     \<lparr>id_e = 1, sessionId = ''s-1'', project = ''/p'', description = JStr ''first'',
      firstPrompt = JNull, savedAt = ''2026-01-01T10:00:00'', status = ''done'',
      completedAt = Some ''2026-01-02T10:00:00''\<rparr>"

definition entry_active :: entry where
  "entry_active =
     \<lparr>id_e = 2, sessionId = ''s-2'', project = ''/q'', description = JStr ''second'',
      firstPrompt = JNull, savedAt = ''2026-01-03T10:00:00'', status = ''active'',
      completedAt = None\<rparr>"

definition world_of :: "entry list \<Rightarrow> world" where
  "world_of cs =
     \<lparr>registry_file = Some \<lparr>conversations = cs\<rparr>, history_file = None, stdout = [],
      registry_writes = 0\<rparr>"

definition world_two :: world where
  "world_two = world_of [entry_done, entry_active]"

text \<open>
  Lines of a history log, a decoder that knows them (and the numeral 5), and a log of
  four lines, the second of which is not JSON.
\<close>

definition line_p1 :: string where
  \<open>line_p1 = ''{"project": "/p", "sessionId": "s-1"}''\<close>

definition line_p9 :: string where
  \<open>line_p9 = ''{"project": "/p", "sessionId": "s-9"}''\<close>

definition line_q2 :: string where
  \<open>line_q2 = ''{"project": "/q", "sessionId": "s-2"}''\<close>

definition line_no_project :: string where
  \<open>line_no_project = ''{"sessionId": "s-7"}''\<close>

definition loads_example :: "string \<Rightarrow> json option" where
  "loads_example s =
     (if s = line_p1
        then Some (JObj [(''project'', JStr ''/p''), (''sessionId'', JStr ''s-1'')])
      else if s = line_p9
        then Some (JObj [(''project'', JStr ''/p''), (''sessionId'', JStr ''s-9'')])
      else if s = line_q2
        then Some (JObj [(''project'', JStr ''/q''), (''sessionId'', JStr ''s-2'')])
      else if s = line_no_project
        then Some (JObj [(''sessionId'', JStr ''s-7'')])
      else if s = ''5'' then Some (JInt 5)
      else None)"

definition history_example :: "string list" where
  "history_example =
     [line_p1 @ [CHR 0x0A], ''not json'' @ [CHR 0x0A], line_p9 @ [CHR 0x0A],
      line_q2 @ [CHR 0x0A]]"










text \<open>
  A transcript of four lines: a user prompt, an assistant turn with three tool calls,
  a line that is not JSON and the same assistant turn again; and a decoder for them.
\<close>

definition line_user :: string where
  \<open>line_user = ''{"type": "user", "message": {"content": "fix the bug"}}''\<close>

definition line_tools :: string where
  \<open>line_tools =
     ''{"type": "assistant", "message": {"content": [{"type": "tool_use", "name": "Read"}, '' @
     ''{"type": "text", "text": "ok"}, {"type": "tool_use", "name": "Edit"}, '' @
     ''{"type": "tool_use", "name": "Bash"}]}}''\<close>

definition loads_transcript :: "string \<Rightarrow> json option" where
  "loads_transcript s =
     (if s = line_user
        then Some (JObj [(''type'', JStr ''user''),
                         (''message'', JObj [(''content'', JStr ''fix the bug'')])])
      else if s = line_tools
        then Some (JObj [(''type'', JStr ''assistant''),
               (''message'', JObj [(''content'',
                  JArr [JObj [(''type'', JStr ''tool_use''), (''name'', JStr ''Read'')],
                        JObj [(''type'', JStr ''text''), (''text'', JStr ''ok'')],
                        JObj [(''type'', JStr ''tool_use''), (''name'', JStr ''Edit'')],
                        JObj [(''type'', JStr ''tool_use''), (''name'', JStr ''Bash'')]])])])
      else None)"

definition transcript_example :: "string list" where
  "transcript_example =
     [line_user @ [CHR 0x0A], line_tools @ [CHR 0x0A], ''not json'' @ [CHR 0x0A],
      line_tools @ [CHR 0x0A]]"

text \<open>
  The same registry beside two history logs: the log above followed by a line for the
  session \<open>s-3\<close> with its prompt, and a log whose only line is the numeral 5. The
  decoder knows the new line and otherwise decodes as the one above.
\<close>

definition line_display :: string where
  \<open>line_display = ''{"display": "third prompt", "project": "/r", "sessionId": "s-3"}''\<close>

definition loads_history :: "string \<Rightarrow> json option" where
  "loads_history s =
     (if s = line_display
        then Some (JObj [(''display'', JStr ''third prompt''), (''project'', JStr ''/r''),
                         (''sessionId'', JStr ''s-3'')])
      else loads_example s)"

definition world_history :: world where
  "world_history =
     \<lparr>registry_file = Some \<lparr>conversations = [entry_done, entry_active]\<rparr>,
      history_file = Some (history_example @ [line_display @ [CHR 0x0A]]),
      stdout = [], registry_writes = 0\<rparr>"

definition world_bad_history :: world where
  "world_bad_history =
     \<lparr>registry_file = Some \<lparr>conversations = [entry_done, entry_active]\<rparr>,
      history_file = Some [''5'' @ [CHR 0x0A]], stdout = [], registry_writes = 0\<rparr>"

text \<open>
  An assistant line whose second content block is a text block without a text, between
  two tool calls, and a decoder for it.
\<close>

definition line_abandoned :: string where
  \<open>line_abandoned =
     ''{"type": "assistant", "message": {"content": [{"type": "tool_use", "name": "Read"}, '' @
     ''{"type": "text"}, {"type": "tool_use", "name": "Bash"}]}}''\<close>

definition abandoned_entry :: json where
  "abandoned_entry =
     JObj [(''type'', JStr ''assistant''),
           (''message'', JObj [(''content'',
              JArr [JObj [(''type'', JStr ''tool_use''), (''name'', JStr ''Read'')],
                    JObj [(''type'', JStr ''text'')],
                    JObj [(''type'', JStr ''tool_use''), (''name'', JStr ''Bash'')]])])]"

definition loads_abandoned :: "string \<Rightarrow> json option" where
  "loads_abandoned s = (if s = line_abandoned then Some abandoned_entry else None)"

section \<open>Properties\<close>

subsection \<open>Helper facts\<close>

lemma in_class_iff:
  "in_class c \<longleftrightarrow>
     c \<in> set ''abcdefghijklmnopqrstuvwxyzABCDEFGHIJKLMNOPQRSTUVWXYZ0123456789-''"
  by (cases c) (simp add: in_class_def code_def)

lemma fold_max_id:
  "fold (\<lambda>d m. if m < id_e d then id_e d else m) cs a = fold max (map id_e cs) a"
  by (induction cs arbitrary: a) (auto simp: max_def)

lemma first_index_None: "first_index P xs = None \<longleftrightarrow> (\<forall>x\<in>set xs. \<not> P x)"
  by (induction xs) auto

lemma first_index_Some:
  "first_index P xs = Some i \<longleftrightarrow> i < length xs \<and> P (xs ! i) \<and> (\<forall>j<i. \<not> P (xs ! j))"
proof (induction xs arbitrary: i)
  case Nil
  then show ?case by simp
next
  case (Cons x xs)
  show ?case
  proof (cases "P x")
    case True
    then show ?thesis by (cases i) auto
  next
    case False
    show ?thesis
    proof (cases i)
      case 0
      with False show ?thesis by auto
    next
      case (Suc k)
      with False Cons.IH [of k] show ?thesis
        by (auto simp: less_Suc_eq_0_disj)
    qed
  qed
qed

lemma filter_update_same:
  "i < length xs \<Longrightarrow> P y = P (xs ! i) \<Longrightarrow>
     length (filter P (xs[i := y])) = length (filter P xs)"
proof (induction xs arbitrary: i)
  case Nil
  then show ?case by simp
next
  case (Cons x xs)
  then show ?case by (cases i) auto
qed

lemma first_indexI:
  "i < length xs \<Longrightarrow> P (xs ! i) \<Longrightarrow> \<forall>j<i. \<not> P (xs ! j) \<Longrightarrow> first_index P xs = Some i"
  by (simp add: first_index_Some)

lemmas example_defs =
  world_two_def world_of_def entry_done_def entry_active_def load_registry_def

lemma load_after_print: "load_registry (print line w) = load_registry w"
  by (simp add: print_def load_registry_def)

lemma load_after_save: "load_registry (save_registry r w) = r"
  by (simp add: save_registry_def load_registry_def)

subsection \<open>The next id\<close>

text \<open>
  C4. For every registry, \<open>next_id\<close> returns one more than the greatest id among the
  conversation entries, and 1 when there is no entry.
\<close>

theorem next_id_spec:
  "next_id r = (if conversations r = [] then 1 else Max (id_e ` set (conversations r)) + 1)"
proof (cases "conversations r")
  case Nil
  then show ?thesis by (simp add: next_id_def)
next
  case (Cons c cs)
  have "Max (id_e ` set (c # cs)) = Max (set (map id_e (c # cs)))" by simp
  also have "\<dots> = fold max (map id_e cs) (id_e c)"
    by (simp only: list.map Max.set_eq_fold)
  finally show ?thesis using Cons by (simp add: next_id_def fold_max_id)
qed

theorem next_id_spec_witness:
  "next_id \<lparr>conversations = []\<rparr> = 1 \<and>
   next_id \<lparr>conversations =
     [\<lparr>id_e = 4, sessionId = ''a'', project = ''/p'', description = JStr ''x'',
       firstPrompt = JNull, savedAt = ''t'', status = ''done'', completedAt = None\<rparr>,
      \<lparr>id_e = 2, sessionId = ''b'', project = ''/p'', description = JStr ''y'',
       firstPrompt = JNull, savedAt = ''t'', status = ''active'', completedAt = None\<rparr>]\<rparr> = 5"
  using next_id_spec [of "\<lparr>conversations = []\<rparr>"]
    next_id_spec [of "\<lparr>conversations =
     [\<lparr>id_e = 4, sessionId = ''a'', project = ''/p'', description = JStr ''x'',
       firstPrompt = JNull, savedAt = ''t'', status = ''done'', completedAt = None\<rparr>,
      \<lparr>id_e = 2, sessionId = ''b'', project = ''/p'', description = JStr ''y'',
       firstPrompt = JNull, savedAt = ''t'', status = ''active'', completedAt = None\<rparr>]\<rparr>"]
  by simp

subsection \<open>The folder name of a working directory\<close>

text \<open>
  C6. For every input string, the encoding replaces exactly the characters outside
  \<open>[A-Za-z0-9-]\<close> by a hyphen and leaves the others as they are: the output is as long
  as the input, at every position it holds the input character when that is a letter, a
  digit or a hyphen and a hyphen otherwise, and \<open>/Users/a/b.c\<close> becomes \<open>-Users-a-b-c\<close>.
\<close>

theorem cwd_to_project_dir_spec:
  "length (cwd_to_project_dir cwd) = length cwd \<and>
   (\<forall>i < length cwd.
      cwd_to_project_dir cwd ! i =
        (if cwd ! i \<in> set ''abcdefghijklmnopqrstuvwxyzABCDEFGHIJKLMNOPQRSTUVWXYZ0123456789-''
         then cwd ! i else CHR ''-'')) \<and>
   cwd_to_project_dir ''/Users/a/b.c'' = ''-Users-a-b-c''"
proof (intro conjI allI impI)
  show "length (cwd_to_project_dir cwd) = length cwd"
    by (simp add: cwd_to_project_dir_def)
next
  fix i assume "i < length cwd"
  then show "cwd_to_project_dir cwd ! i =
        (if cwd ! i \<in> set ''abcdefghijklmnopqrstuvwxyzABCDEFGHIJKLMNOPQRSTUVWXYZ0123456789-''
         then cwd ! i else CHR ''-'')"
    by (simp only: cwd_to_project_dir_def nth_map in_class_iff)
next
  show "cwd_to_project_dir ''/Users/a/b.c'' = ''-Users-a-b-c''"
    by (simp add: cwd_to_project_dir_def in_class_def code_def)
qed

theorem cwd_to_project_dir_spec_witness:
  "length (cwd_to_project_dir ''a_b/9'') = 5 \<and>
   cwd_to_project_dir ''a_b/9'' ! 1 = CHR ''-'' \<and>
   cwd_to_project_dir ''a_b/9'' ! 2 = CHR ''b'' \<and>
   cwd_to_project_dir ''a_b/9'' ! 3 = CHR ''-'' \<and>
   cwd_to_project_dir ''a_b/9'' ! 4 = CHR ''9''"
  using cwd_to_project_dir_spec [of "''a_b/9''"] by simp

subsection \<open>Done and remove on an unknown id\<close>

text \<open>
  C5. For every registry and every id that no conversation entry carries, \<open>done\<close> and
  \<open>remove\<close> leave the registry as it is (the file is not written, no entry changes),
  print the not-found message and end with exit code 1.
\<close>

theorem done_remove_not_found:
  assumes absent: "\<forall>c \<in> set (conversations (load_registry w)). id_e c \<noteq> id_arg"
    and run_done: "cmd_done now id_arg w = (ending, w')"
    and run_remove: "cmd_remove id_arg w = (ending_r, w_r)"
  shows "registry_file w' = registry_file w \<and> registry_writes w' = registry_writes w \<and>
         load_registry w' = load_registry w \<and>
         stdout w' = stdout w @ [[Lit ''No conversation found with ID #'', Num id_arg]] \<and>
         exit_code ending = 1 \<and>
         registry_file w_r = registry_file w \<and> registry_writes w_r = registry_writes w \<and>
         load_registry w_r = load_registry w \<and>
         stdout w_r = stdout w @ [[Lit ''No conversation found with ID #'', Num id_arg]] \<and>
         exit_code ending_r = 1"
proof -
  from absent
  have none: "first_index (\<lambda>c. id_e c = id_arg) (conversations (load_registry w)) = None"
    by (simp add: first_index_None)
  from run_done none have d: "ending = Exited 1"
      "w' = print [Lit ''No conversation found with ID #'', Num id_arg] w"
    by (simp_all add: cmd_done_def Let_def)
  from run_remove none have r: "ending_r = Exited 1"
      "w_r = print [Lit ''No conversation found with ID #'', Num id_arg] w"
    by (simp_all add: cmd_remove_def Let_def)
  show ?thesis
    by (simp add: d r print_def load_registry_def)
qed

theorem done_remove_not_found_witness:
  "7 \<notin> id_e ` set (conversations (load_registry world_two)) \<and>
   registry_file (snd (cmd_done ''2026-02-01T09:00:00'' 7 world_two)) = registry_file world_two \<and>
   registry_writes (snd (cmd_done ''2026-02-01T09:00:00'' 7 world_two)) = 0 \<and>
   exit_code (fst (cmd_done ''2026-02-01T09:00:00'' 7 world_two)) = 1 \<and>
   registry_file (snd (cmd_remove 7 world_two)) = registry_file world_two \<and>
   stdout (snd (cmd_remove 7 world_two)) = [[Lit ''No conversation found with ID #'', Num 7]] \<and>
   exit_code (fst (cmd_remove 7 world_two)) = 1"
proof -
  have absent: "\<forall>c \<in> set (conversations (load_registry world_two)). id_e c \<noteq> 7"
    by (simp add: example_defs)
  have w0: "registry_writes world_two = 0" "stdout world_two = []"
    by (simp_all add: example_defs)
  from done_remove_not_found [OF absent surjective_pairing surjective_pairing,
      of "''2026-02-01T09:00:00''"] absent w0
  show ?thesis by auto
qed

subsection \<open>Saving a session\<close>

lemma unique_session_is_first:
  assumes "distinct (map sessionId cs)" and "i < length cs" and "sessionId (cs ! i) = sid"
  shows "\<forall>j<i. sessionId (cs ! j) \<noteq> sid"
proof (intro allI impI notI)
  fix j assume "j < i" and same: "sessionId (cs ! j) = sid"
  have "(map sessionId cs ! j = map sessionId cs ! i) = (j = i)"
    using assms(1,2) \<open>j < i\<close> by (intro nth_eq_iff_index_eq) simp_all
  with same assms(2,3) \<open>j < i\<close> show False by simp
qed

lemma unique_session_filter:
  "distinct (map sessionId cs) \<Longrightarrow> c \<in> set cs \<Longrightarrow>
     filter (\<lambda>e. sessionId e = sessionId c) cs = [c]"
proof (induction cs)
  case Nil
  then show ?case by simp
next
  case (Cons x xs)
  show ?case
  proof (cases "x = c")
    case True
    with Cons.prems have "\<forall>e \<in> set xs. sessionId e \<noteq> sessionId c"
      by (auto simp add: image_iff)
    then have "filter (\<lambda>e. sessionId e = sessionId c) xs = []"
      by (simp add: filter_empty_conv)
    with True show ?thesis by simp
  next
    case False
    with Cons.prems have "c \<in> set xs" and "sessionId x \<noteq> sessionId c" by auto
    with Cons show ?thesis by simp
  qed
qed

lemma cmd_save_first_active:
  assumes i: "i < length (conversations (load_registry w))"
    and sid: "sessionId (conversations (load_registry w) ! i) = session_id"
    and first: "\<forall>j<i. sessionId (conversations (load_registry w) ! j) \<noteq> session_id"
    and active: "status (conversations (load_registry w) ! i) = ''active''"
    and run: "cmd_save json_loads now session_id project_arg description_arg w = (ending, w')"
  shows "ending = Exited 0 \<and>
         w' = print [Lit ''Session already saved as #'',
                     Num (id_e (conversations (load_registry w) ! i)), Lit '': '',
                     Val (description (conversations (load_registry w) ! i))] w"
proof -
  from i sid first
  have idx: "first_index (\<lambda>c. sessionId c = session_id) (conversations (load_registry w)) = Some i"
    by (intro first_indexI) simp_all
  from run idx active show ?thesis
    by (simp add: cmd_save_def Let_def)
qed

lemma cmd_save_first_inactive:
  assumes i: "i < length (conversations (load_registry w))"
    and sid: "sessionId (conversations (load_registry w) ! i) = session_id"
    and first: "\<forall>j<i. sessionId (conversations (load_registry w) ! j) \<noteq> session_id"
    and inactive: "status (conversations (load_registry w) ! i) \<noteq> ''active''"
    and run: "cmd_save json_loads now session_id project_arg description_arg w = (ending, w')"
  shows "ending = Returned \<and>
         conversations (load_registry w') =
           (conversations (load_registry w))
             [i := (conversations (load_registry w) ! i)
                \<lparr>status := ''active'', savedAt := now,
                 description := description_or description_arg
                   (description (conversations (load_registry w) ! i))\<rparr>] \<and>
         registry_writes w' = Suc (registry_writes w)"
proof -
  from i sid first
  have idx: "first_index (\<lambda>c. sessionId c = session_id) (conversations (load_registry w)) = Some i"
    by (intro first_indexI) simp_all
  from run idx inactive
  have "ending = Returned"
    and "conversations (load_registry w') =
           (conversations (load_registry w))
             [i := (conversations (load_registry w) ! i)
                \<lparr>status := ''active'', savedAt := now,
                 description := description_or description_arg
                   (description (conversations (load_registry w) ! i))\<rparr>]"
    by (auto simp add: cmd_save_def Let_def load_after_print load_after_save)
  moreover from run idx inactive have "registry_writes w' = Suc (registry_writes w)"
    by (auto simp add: cmd_save_def Let_def save_registry_def print_def)
  ultimately show ?thesis by simp
qed

text \<open>
  Every command keeps one entry per session, and the registry that \<open>load_registry\<close>
  returns before the file exists has none.
\<close>

lemma cmd_save_keeps_one_entry_per_session:
  assumes one: "one_entry_per_session (load_registry w)"
    and run: "cmd_save json_loads now session_id project_arg description_arg w = (ending, w')"
  shows "one_entry_per_session (load_registry w')"
proof (cases "first_index (\<lambda>c. sessionId c = session_id) (conversations (load_registry w))")
  case None
  then have fresh: "session_id \<notin> sessionId ` set (conversations (load_registry w))"
    by (auto simp add: first_index_None)
  show ?thesis
  proof (cases "get_first_prompt json_loads (history_file w) session_id")
    case (Inl e)
    with run None have "w' = w" by (simp add: cmd_save_def Let_def)
    with one show ?thesis by simp
  next
    case (Inr first_prompt)
    with run None
    have "\<exists>entry. sessionId entry = session_id \<and>
            conversations (load_registry w') = conversations (load_registry w) @ [entry]"
      by (auto simp add: cmd_save_def Let_def load_after_print load_after_save)
    with one fresh show ?thesis by (auto simp add: one_entry_per_session_def)
  qed
next
  case (Some i)
  then have i: "i < length (conversations (load_registry w))"
    by (simp add: first_index_Some)
  let ?c' = "(conversations (load_registry w) ! i)\<lparr>status := ''active'', savedAt := now,
      description := description_or description_arg
        (description (conversations (load_registry w) ! i))\<rparr>"
  from run Some
  have "conversations (load_registry w') = conversations (load_registry w) \<or>
        conversations (load_registry w') = (conversations (load_registry w))[i := ?c']"
    by (auto simp add: cmd_save_def Let_def load_after_print load_after_save split: if_splits)
  moreover have "map sessionId ((conversations (load_registry w))[i := ?c']) =
        map sessionId (conversations (load_registry w))"
    using i by (simp add: map_update list_update_same_conv)
  ultimately show ?thesis
    using one by (auto simp add: one_entry_per_session_def)
qed

lemma cmd_done_remove_keep_one_entry_per_session:
  assumes one: "one_entry_per_session (load_registry w)"
  shows "one_entry_per_session (load_registry (snd (cmd_done now id_arg w))) \<and>
         one_entry_per_session (load_registry (snd (cmd_remove id_arg w)))"
proof (cases "first_index (\<lambda>c. id_e c = id_arg) (conversations (load_registry w))")
  case None
  with one show ?thesis
    by (simp add: cmd_done_def cmd_remove_def Let_def load_after_print)
next
  case (Some i)
  then have i: "i < length (conversations (load_registry w))"
    by (simp add: first_index_Some)
  have same: "map sessionId ((conversations (load_registry w))[i := c]) =
      map sessionId (conversations (load_registry w))"
    if "sessionId c = sessionId (conversations (load_registry w) ! i)" for c
    using that i by (simp add: map_update list_update_same_conv)
  from Some one show ?thesis
    by (simp add: cmd_done_def cmd_remove_def Let_def load_after_print load_after_save
        one_entry_per_session_def same)
qed

lemma no_file_one_entry_per_session:
  "registry_file w = None \<Longrightarrow> one_entry_per_session (load_registry w)"
  by (simp add: load_registry_def one_entry_per_session_def)

text \<open>
  C9, as the code has it. \<open>cmd_save\<close> looks the first prompt up in the history log
  before it builds the entry, and that lookup catches \<open>JSONDecodeError\<close> only. For
  every registry that holds no entry with the given session id, in every run in which
  the lookup returns, the save appends exactly one new entry at the end of the
  conversations and leaves every entry that was there as it was.
\<close>

theorem save_new_session_appends:
  assumes absent: "\<forall>c \<in> set (conversations (load_registry w)). sessionId c \<noteq> session_id"
    and lookup: "get_first_prompt json_loads (history_file w) session_id = Inr first_prompt"
    and run: "cmd_save json_loads now session_id project_arg description_arg w = (ending, w')"
  shows "\<exists>entry.
           conversations (load_registry w') = conversations (load_registry w) @ [entry] \<and>
           sessionId entry = session_id \<and> id_e entry = next_id (load_registry w) \<and>
           status entry = ''active'' \<and> project entry = project_arg \<and> savedAt entry = now \<and>
           firstPrompt entry = first_prompt \<and>
           length (conversations (load_registry w')) =
             Suc (length (conversations (load_registry w))) \<and>
           (\<forall>i < length (conversations (load_registry w)).
              conversations (load_registry w') ! i = conversations (load_registry w) ! i) \<and>
           registry_writes w' = Suc (registry_writes w) \<and> ending = Returned"
proof -
  from absent
  have none: "first_index (\<lambda>c. sessionId c = session_id) (conversations (load_registry w)) = None"
    by (simp add: first_index_None)
  define entry where "entry =
    \<lparr>id_e = next_id (load_registry w), sessionId = session_id, project = project_arg,
     description = description_or description_arg
        (if truthy first_prompt then first_prompt else JStr ''No description''),
     firstPrompt = first_prompt, savedAt = now, status = ''active'', completedAt = None\<rparr>"
  from run none lookup
  have e: "ending = Returned"
    by (auto simp add: cmd_save_def Let_def)
  from run none lookup
  have reg: "registry_file w' =
      Some ((load_registry w)\<lparr>conversations := conversations (load_registry w) @ [entry]\<rparr>)"
    and wr: "registry_writes w' = Suc (registry_writes w)"
    by (auto simp add: cmd_save_def Let_def entry_def save_registry_def print_def)
  from reg have cs: "conversations (load_registry w') = conversations (load_registry w) @ [entry]"
    by (simp add: load_registry_def)
  show ?thesis
    by (rule exI [of _ entry]) (simp add: cs e wr nth_append, simp add: entry_def)
qed

lemma history_lookup_examples:
  "get_first_prompt loads_history (history_file world_history) ''s-3'' =
     Inr (JStr ''third prompt'')"
  "get_first_prompt loads_example (history_file world_bad_history) ''s-3'' = Inl AttributeError"
  by code_simp+

theorem save_new_session_appends_witness:
  "''s-3'' \<notin> sessionId ` set (conversations (load_registry world_history)) \<and>
   get_first_prompt loads_history (history_file world_history) ''s-3'' =
     Inr (JStr ''third prompt'') \<and>
   fst (cmd_save loads_history ''2026-02-01T09:00:00'' ''s-3'' ''/r'' None world_history)
     = Returned \<and>
   (\<exists>entry.
      conversations (load_registry
        (snd (cmd_save loads_history ''2026-02-01T09:00:00'' ''s-3'' ''/r'' None world_history))) =
        [entry_done, entry_active, entry] \<and>
      sessionId entry = ''s-3'' \<and> id_e entry = 3 \<and> status entry = ''active'' \<and>
      firstPrompt entry = JStr ''third prompt'') \<and>
   registry_writes
     (snd (cmd_save loads_history ''2026-02-01T09:00:00'' ''s-3'' ''/r'' None world_history)) = 1"
proof -
  have cs: "conversations (load_registry world_history) = [entry_done, entry_active]"
    by (simp add: world_history_def load_registry_def)
  have absent: "\<forall>c \<in> set (conversations (load_registry world_history)). sessionId c \<noteq> ''s-3''"
    by (simp add: cs entry_done_def entry_active_def)
  have next3: "next_id (load_registry world_history) = 3"
    by (simp add: next_id_def cs entry_done_def entry_active_def)
  have writes: "registry_writes world_history = 0"
    by (simp add: world_history_def)
  from save_new_session_appends [OF absent history_lookup_examples(1) surjective_pairing,
      of "''2026-02-01T09:00:00''" "''/r''" None]
  show ?thesis
    using absent history_lookup_examples(1) by (auto simp add: cs next3 writes)
qed

text \<open>
  The claim C9 as it is written fails where the lookup raises. The history log here
  holds the line 5, which parses to a number: no entry carries the session id, the save
  ends with an \<open>AttributeError\<close>, and nothing is appended or written.
\<close>

theorem save_new_session_counterexample:
  "conversations (load_registry world_bad_history) = [entry_done, entry_active] \<and>
   sessionId entry_done = ''s-1'' \<and> sessionId entry_active = ''s-2'' \<and>
   cmd_save loads_example ''2026-02-01T09:00:00'' ''s-3'' ''/r'' (Some ''third'')
     world_bad_history = (Raised AttributeError, world_bad_history)"
proof -
  have cs: "conversations (load_registry world_bad_history) = [entry_done, entry_active]"
    by (simp add: world_bad_history_def load_registry_def)
  have none: "first_index (\<lambda>c. sessionId c = ''s-3'') [entry_done, entry_active] = None"
    by (simp add: entry_done_def entry_active_def)
  show ?thesis
    by (simp add: cmd_save_def Let_def cs none history_lookup_examples(2))
       (simp add: entry_done_def entry_active_def)
qed

text \<open>
  C2. For every registry containing an entry whose session id is the saved one and whose
  status is active, the save prints the already-saved message, ends with exit code 0
  and changes nothing: the registry file is not written and holds the same entries. The
  registry is the one the commands keep, with one entry for each session.
\<close>

theorem save_active_no_mutation:
  assumes one: "one_entry_per_session (load_registry w)"
    and entry: "c \<in> set (conversations (load_registry w))"
    and sid: "sessionId c = session_id"
    and active: "status c = ''active''"
    and run: "cmd_save json_loads now session_id project_arg description_arg w = (ending, w')"
  shows "ending = Exited 0 \<and> exit_code ending = 0 \<and>
         stdout w' = stdout w @
           [[Lit ''Session already saved as #'', Num (id_e c), Lit '': '',
             Val (description c)]] \<and>
         registry_file w' = registry_file w \<and> registry_writes w' = registry_writes w \<and>
         history_file w' = history_file w \<and>
         conversations (load_registry w') = conversations (load_registry w)"
proof -
  from entry obtain i where i: "i < length (conversations (load_registry w))"
    and c: "conversations (load_registry w) ! i = c"
    by (auto simp add: in_set_conv_nth)
  from one i c sid
  have first: "\<forall>j<i. sessionId (conversations (load_registry w) ! j) \<noteq> session_id"
    by (intro unique_session_is_first) (simp_all add: one_entry_per_session_def)
  from cmd_save_first_active [OF i _ first _ run] c sid active
  have "ending = Exited 0"
    and "w' = print [Lit ''Session already saved as #'', Num (id_e c), Lit '': '',
                     Val (description c)] w"
    by simp_all
  then show ?thesis
    by (simp add: print_def load_registry_def)
qed

theorem save_active_no_mutation_witness:
  "one_entry_per_session (load_registry world_two) \<and>
   entry_active \<in> set (conversations (load_registry world_two)) \<and>
   sessionId entry_active = ''s-2'' \<and> status entry_active = ''active'' \<and>
   fst (cmd_save loads_example ''2026-02-01T09:00:00'' ''s-2'' ''/q'' None world_two) = Exited 0 \<and>
   registry_file (snd (cmd_save loads_example ''2026-02-01T09:00:00'' ''s-2'' ''/q'' None
     world_two)) = registry_file world_two \<and>
   registry_writes (snd (cmd_save loads_example ''2026-02-01T09:00:00'' ''s-2'' ''/q'' None
     world_two)) = 0 \<and>
   stdout (snd (cmd_save loads_example ''2026-02-01T09:00:00'' ''s-2'' ''/q'' None world_two)) =
     [[Lit ''Session already saved as #'', Num 2, Lit '': '', Val (JStr ''second'')]]"
proof -
  have cs: "conversations (load_registry world_two) = [entry_done, entry_active]"
    by (simp add: world_two_def world_of_def load_registry_def)
  have one: "one_entry_per_session (load_registry world_two)"
    by (simp add: one_entry_per_session_def cs entry_done_def entry_active_def)
  have entry: "entry_active \<in> set (conversations (load_registry world_two))"
    by (simp add: cs)
  have sid: "sessionId entry_active = ''s-2''" and active: "status entry_active = ''active''"
    by (simp_all add: entry_active_def)
  have out: "stdout world_two = []" "registry_writes world_two = 0"
    by (simp_all add: world_two_def world_of_def)
  from save_active_no_mutation [OF one entry sid active surjective_pairing,
      of loads_example "''2026-02-01T09:00:00''" "''/q''" None]
  show ?thesis
    using one entry by (simp add: out entry_active_def)
qed

text \<open>
  C3. For every registry containing an entry whose session id is the saved one and whose
  status is done or removed, the save reactivates that same entry in place: its status
  becomes active, its id stays, no entry is appended (every other entry stays where and
  as it was), and afterwards the registry holds exactly one entry for the session id.
  The registry is the one the commands keep, with one entry for each session.
\<close>

theorem save_reactivates_in_place:
  assumes one: "one_entry_per_session (load_registry w)"
    and entry: "c \<in> set (conversations (load_registry w))"
    and sid: "sessionId c = session_id"
    and inactive: "status c = ''done'' \<or> status c = ''removed''"
    and run: "cmd_save json_loads now session_id project_arg description_arg w = (ending, w')"
  shows "ending = Returned \<and>
         length (conversations (load_registry w')) = length (conversations (load_registry w)) \<and>
         (\<exists>i < length (conversations (load_registry w)).
            conversations (load_registry w) ! i = c \<and>
            conversations (load_registry w') ! i =
              c\<lparr>status := ''active'', savedAt := now,
                description := description_or description_arg (description c)\<rparr> \<and>
            status (conversations (load_registry w') ! i) = ''active'' \<and>
            id_e (conversations (load_registry w') ! i) = id_e c \<and>
            sessionId (conversations (load_registry w') ! i) = session_id \<and>
            (\<forall>j < length (conversations (load_registry w)). j \<noteq> i \<longrightarrow>
               conversations (load_registry w') ! j = conversations (load_registry w) ! j)) \<and>
         length (filter (\<lambda>e. sessionId e = session_id) (conversations (load_registry w'))) = 1 \<and>
         one_entry_per_session (load_registry w') \<and>
         registry_writes w' = Suc (registry_writes w)"
proof -
  let ?cs = "conversations (load_registry w)"
  let ?c' = "c\<lparr>status := ''active'', savedAt := now,
               description := description_or description_arg (description c)\<rparr>"
  from entry obtain i where i: "i < length ?cs" and c: "?cs ! i = c"
    by (auto simp add: in_set_conv_nth)
  from one i c sid have first: "\<forall>j<i. sessionId (?cs ! j) \<noteq> session_id"
    by (intro unique_session_is_first) (simp_all add: one_entry_per_session_def)
  from inactive c have na: "status (?cs ! i) \<noteq> ''active''" by auto
  from cmd_save_first_inactive [OF i _ first na run] c sid
  have e: "ending = Returned"
    and cs': "conversations (load_registry w') = ?cs[i := ?c']"
    and wr: "registry_writes w' = Suc (registry_writes w)"
    by simp_all
  from cmd_save_keeps_one_entry_per_session [OF one run]
  have one': "one_entry_per_session (load_registry w')" .
  have "?c' \<in> set (conversations (load_registry w'))"
    using i by (simp add: cs' set_update_memI)
  with one' have "filter (\<lambda>e. sessionId e = sessionId ?c') (conversations (load_registry w')) = [?c']"
    by (intro unique_session_filter) (simp_all add: one_entry_per_session_def)
  then have cnt: "length (filter (\<lambda>e. sessionId e = session_id)
      (conversations (load_registry w'))) = 1"
    using sid by simp
  have at: "\<exists>i < length ?cs. ?cs ! i = c \<and>
            conversations (load_registry w') ! i = ?c' \<and>
            status (conversations (load_registry w') ! i) = ''active'' \<and>
            id_e (conversations (load_registry w') ! i) = id_e c \<and>
            sessionId (conversations (load_registry w') ! i) = session_id \<and>
            (\<forall>j < length ?cs. j \<noteq> i \<longrightarrow> conversations (load_registry w') ! j = ?cs ! j)"
    using i c sid by (intro exI [of _ i]) (simp add: cs')
  from e at cnt one' wr show ?thesis
    by (simp add: cs')
qed

theorem save_reactivates_in_place_witness:
  "one_entry_per_session (load_registry world_two) \<and>
   entry_done \<in> set (conversations (load_registry world_two)) \<and>
   sessionId entry_done = ''s-1'' \<and> status entry_done = ''done'' \<and>
   fst (cmd_save loads_example ''2026-02-01T09:00:00'' ''s-1'' ''/p'' None world_two) = Returned \<and>
   length (conversations (load_registry
     (snd (cmd_save loads_example ''2026-02-01T09:00:00'' ''s-1'' ''/p'' None world_two)))) = 2 \<and>
   (\<exists>i<2. [entry_done, entry_active] ! i = entry_done \<and>
      conversations (load_registry
        (snd (cmd_save loads_example ''2026-02-01T09:00:00'' ''s-1'' ''/p'' None world_two))) ! i =
        entry_done\<lparr>status := ''active'', savedAt := ''2026-02-01T09:00:00''\<rparr>) \<and>
   length (filter (\<lambda>e. sessionId e = ''s-1'') (conversations (load_registry
     (snd (cmd_save loads_example ''2026-02-01T09:00:00'' ''s-1'' ''/p'' None world_two))))) = 1 \<and>
   registry_writes
     (snd (cmd_save loads_example ''2026-02-01T09:00:00'' ''s-1'' ''/p'' None world_two)) = 1"
proof -
  have cs: "conversations (load_registry world_two) = [entry_done, entry_active]"
    by (simp add: world_two_def world_of_def load_registry_def)
  have one: "one_entry_per_session (load_registry world_two)"
    by (simp add: one_entry_per_session_def cs entry_done_def entry_active_def)
  have entry: "entry_done \<in> set (conversations (load_registry world_two))"
    by (simp add: cs)
  have sid: "sessionId entry_done = ''s-1''"
    and st: "status entry_done = ''done''"
    by (simp_all add: entry_done_def)
  from st have inactive: "status entry_done = ''done'' \<or> status entry_done = ''removed''"
    by simp
  have writes: "registry_writes world_two = 0"
    by (simp add: world_two_def world_of_def)
  note r = save_reactivates_in_place [OF one entry sid inactive surjective_pairing,
      of loads_example "''2026-02-01T09:00:00''" "''/p''" None]
  from r have plain:
    "fst (cmd_save loads_example ''2026-02-01T09:00:00'' ''s-1'' ''/p'' None world_two) = Returned"
    "length (conversations (load_registry
       (snd (cmd_save loads_example ''2026-02-01T09:00:00'' ''s-1'' ''/p'' None world_two)))) = 2"
    "length (filter (\<lambda>e. sessionId e = ''s-1'') (conversations (load_registry
       (snd (cmd_save loads_example ''2026-02-01T09:00:00'' ''s-1'' ''/p'' None world_two))))) = 1"
    "registry_writes
       (snd (cmd_save loads_example ''2026-02-01T09:00:00'' ''s-1'' ''/p'' None world_two)) = 1"
    by (simp_all add: cs writes)
  from r have place:
    "\<exists>i<2. [entry_done, entry_active] ! i = entry_done \<and>
      conversations (load_registry
        (snd (cmd_save loads_example ''2026-02-01T09:00:00'' ''s-1'' ''/p'' None world_two))) ! i =
        entry_done\<lparr>status := ''active'', savedAt := ''2026-02-01T09:00:00''\<rparr>"
    unfolding cs by (auto simp add: numeral_2_eq_2)
  from one entry sid st plain place show ?thesis
    by (simp only: simp_thms)
qed

subsection \<open>The CPU threshold of the process discoverer\<close>












subsection \<open>The history correlator\<close>

lemma matching_Cons:
  "matching jl cwd (line # rest) =
     (case jl (strip line) of
        None \<Rightarrow> matching jl cwd rest
      | Some entry \<Rightarrow>
          if field entry ''project'' (JStr []) = JStr cwd then entry # matching jl cwd rest
          else matching jl cwd rest)"
  by (simp add: matching_def parseable_def List.map_filter_simps split: option.splits)

lemma matching_Nil: "matching jl cwd [] = []"
  by (simp add: matching_def parseable_def List.map_filter_simps)

lemma get_dict: "is_dict entry \<Longrightarrow> get entry key dflt = Inr (field entry key dflt)"
  by (cases entry) (simp_all add: field_def)

lemma history_scan_objects:
  assumes "\<forall>line \<in> set lines. \<forall>v. jl (strip line) = Some v \<longrightarrow> is_dict v"
  shows "history_scan jl cwd lines best =
           Inr (case rev (matching jl cwd lines) of
                  [] \<Rightarrow> best
                | entry # _ \<Rightarrow> field entry ''sessionId'' JNull)"
  using assms
proof (induction lines arbitrary: best)
  case Nil
  then show ?case by (simp add: matching_Nil)
next
  case (Cons line rest)
  then have rest: "\<forall>line \<in> set rest. \<forall>v. jl (strip line) = Some v \<longrightarrow> is_dict v"
    by simp
  note IH = Cons.IH [OF rest]
  show ?case
  proof (cases "jl (strip line)")
    case None
    then show ?thesis by (simp add: IH matching_Cons)
  next
    case (Some entry)
    with Cons.prems have "is_dict entry" by simp
    then have g: "\<And>key dflt. get entry key dflt = Inr (field entry key dflt)"
      by (rule get_dict)
    show ?thesis
      by (simp add: Some g IH matching_Cons split: list.splits)
  qed
qed

text \<open>
  C7, as the code has it. The loop catches \<open>JSONDecodeError\<close> only, and it reads the
  project with the empty string as default. For every working directory and every
  sequence of lines each of which is unparseable or parses to a JSON object, the
  correlator returns the session id of the last parseable line whose project field (the
  empty string when the line has none) is the target directory, \<open>None\<close> when no line
  matches or the file is absent; unparseable lines are skipped.
\<close>

theorem find_session_id_last_match:
  assumes "\<forall>line \<in> set lines. \<forall>v. json_loads (strip line) = Some v \<longrightarrow> is_dict v"
  shows "find_session_id_for_cwd json_loads (Some lines) cwd =
           Inr (last_session_id json_loads cwd lines) \<and>
         (matching json_loads cwd lines = [] \<longrightarrow>
            find_session_id_for_cwd json_loads (Some lines) cwd = Inr JNull) \<and>
         (matching json_loads cwd lines \<noteq> [] \<longrightarrow>
            find_session_id_for_cwd json_loads (Some lines) cwd =
              Inr (field (last (matching json_loads cwd lines)) ''sessionId'' JNull)) \<and>
         find_session_id_for_cwd json_loads None cwd = Inr JNull"
proof -
  have scan: "find_session_id_for_cwd json_loads (Some lines) cwd =
      Inr (last_session_id json_loads cwd lines)"
    using history_scan_objects [OF assms, of cwd JNull]
    by (simp add: find_session_id_for_cwd_def last_session_id_def)
  have last: "matching json_loads cwd lines \<noteq> [] \<Longrightarrow>
      last_session_id json_loads cwd lines =
        field (last (matching json_loads cwd lines)) ''sessionId'' JNull"
    by (cases "matching json_loads cwd lines" rule: rev_cases)
       (simp_all add: last_session_id_def)
  have empty: "matching json_loads cwd lines = [] \<Longrightarrow>
      last_session_id json_loads cwd lines = JNull"
    by (simp add: last_session_id_def)
  have absent: "find_session_id_for_cwd json_loads None cwd = Inr JNull"
    by (simp add: find_session_id_for_cwd_def)
  show ?thesis
    using last empty by (simp add: scan absent)
qed

lemma history_example_lines:
  "loads_example (strip line_p1) =
     Some (JObj [(''project'', JStr ''/p''), (''sessionId'', JStr ''s-1'')])"
  "loads_example (strip (line_p1 @ [CHR 0x0A])) =
     Some (JObj [(''project'', JStr ''/p''), (''sessionId'', JStr ''s-1'')])"
  "loads_example (strip (line_p9 @ [CHR 0x0A])) =
     Some (JObj [(''project'', JStr ''/p''), (''sessionId'', JStr ''s-9'')])"
  "loads_example (strip (line_q2 @ [CHR 0x0A])) =
     Some (JObj [(''project'', JStr ''/q''), (''sessionId'', JStr ''s-2'')])"
  "loads_example (strip line_no_project) = Some (JObj [(''sessionId'', JStr ''s-7'')])"
  "loads_example (strip (''not json'' @ [CHR 0x0A])) = None"
  "loads_example (strip ''5'') = Some (JInt 5)"
  by (simp_all add: loads_example_def line_p1_def line_p9_def line_q2_def line_no_project_def
      strip_def lstrip_def rstrip_def is_space_def code_def)

theorem find_session_id_last_match_witness:
  "find_session_id_for_cwd loads_example (Some history_example) ''/p'' = Inr (JStr ''s-9'') \<and>
   find_session_id_for_cwd loads_example (Some history_example) ''/r'' = Inr JNull \<and>
   find_session_id_for_cwd loads_example None ''/p'' = Inr JNull"
proof -
  have objects:
    "\<forall>line \<in> set history_example. \<forall>v. loads_example (strip line) = Some v \<longrightarrow> is_dict v"
    unfolding history_example_def by (auto simp only: set_simps history_example_lines is_dict.simps)
  have p: "last_session_id loads_example ''/p'' history_example = JStr ''s-9''"
    and r: "last_session_id loads_example ''/r'' history_example = JNull"
    unfolding history_example_def last_session_id_def matching_Cons matching_Nil
      history_example_lines
    by (simp_all add: field_def)
  from find_session_id_last_match [OF objects, of "''/p''"]
    find_session_id_last_match [OF objects, of "''/r''"]
  show ?thesis by (simp add: p r)
qed

text \<open>
  The claim C7 as it is written fails twice. A line that parses to a value that is no
  object (here the number 5) ends the call with an \<open>AttributeError\<close>, whether or not a
  line before it matched. And for the empty target directory a line without a project
  field counts as a match.
\<close>

theorem find_session_id_counterexample:
  "loads_example (strip ''5'') = Some (JInt 5) \<and>
   find_session_id_for_cwd loads_example (Some [''5'']) ''/p'' = Inl AttributeError \<and>
   find_session_id_for_cwd loads_example (Some [line_p1, ''5'']) ''/p'' = Inl AttributeError \<and>
   loads_example (strip line_no_project) = Some (JObj [(''sessionId'', JStr ''s-7'')]) \<and>
   find_session_id_for_cwd loads_example (Some [line_no_project]) [] = Inr (JStr ''s-7'')"
  by (simp add: find_session_id_for_cwd_def history_example_lines)

text \<open>
  The lookup of the first prompt returns whenever the history log is absent, or each of
  its lines is unparseable or an object whose display, if it has one, is a str or a
  list.
\<close>

lemma get_first_prompt_returns:
  assumes "\<forall>lines. history = Some lines \<longrightarrow>
             (\<forall>line \<in> set lines. \<forall>v. json_loads (strip line) = Some v \<longrightarrow>
                is_dict v \<and> (\<forall>e. slice_120 (field v ''display'' (JStr [])) \<noteq> Inl e))"
  shows "\<exists>first_prompt. get_first_prompt json_loads history session_id = Inr first_prompt"
proof (cases history)
  case None
  then show ?thesis by (simp add: get_first_prompt_def)
next
  case (Some lines)
  with assms
  have wf: "\<forall>line \<in> set lines. \<forall>v. json_loads (strip line) = Some v \<longrightarrow>
                is_dict v \<and> (\<forall>e. slice_120 (field v ''display'' (JStr [])) \<noteq> Inl e)"
    by simp
  then have "\<exists>first_prompt. first_prompt_scan json_loads session_id lines = Inr first_prompt"
  proof (induction lines)
    case Nil
    then show ?case by simp
  next
    case (Cons line rest)
    then have IH: "\<exists>first_prompt. first_prompt_scan json_loads session_id rest = Inr first_prompt"
      by simp
    show ?case
    proof (cases "json_loads (strip line)")
      case None
      with IH show ?thesis by simp
    next
      case (Some v)
      with Cons.prems have dict: "is_dict v"
        and display: "\<forall>e. slice_120 (field v ''display'' (JStr [])) \<noteq> Inl e"
        by simp_all
      from display obtain r where "slice_120 (field v ''display'' (JStr [])) = Inr r"
        by (cases "slice_120 (field v ''display'' (JStr []))") auto
      with Some IH get_dict [OF dict] show ?thesis by simp
    qed
  qed
  with Some show ?thesis by (simp add: get_first_prompt_def)
qed

subsection \<open>Text extraction\<close>














subsection \<open>The recent tools of a session context\<close>

lemma block_step_agree:
  "block_step c st = Inr st' \<Longrightarrow> tools_agree st \<Longrightarrow> tools_agree st'"
  by (auto simp add: block_step_def tools_agree_def
      split: if_splits sum.splits json.splits)

lemma assistant_blocks_agree:
  "tools_agree st \<Longrightarrow> tools_agree (fst (assistant_blocks cs st))"
proof (induction cs arbitrary: st)
  case Nil
  then show ?case by simp
next
  case (Cons c cs)
  show ?case
  proof (cases "block_step c st")
    case (Inl e)
    with Cons.prems show ?thesis by simp
  next
    case (Inr st')
    with Cons.prems have "tools_agree st'" by (auto dest: block_step_agree)
    from Cons.IH [OF this] Inr show ?thesis by simp
  qed
qed

lemma tail_line_agree:
  assumes "tools_agree st"
  shows "tools_agree (fst (tail_line jl line st))"
proof -
  have user: "tools_agree (st\<lparr>last_user := u\<rparr>)" for u
    using assms by (simp add: tools_agree_def)
  show ?thesis
    using assms user assistant_blocks_agree
    by (auto simp add: tail_line_def split: option.splits sum.splits json.splits if_splits)
qed

lemma tail_scan_agree:
  "tail_scan jl lines st = Inr st' \<Longrightarrow> tools_agree st \<Longrightarrow> tools_agree st'"
proof (induction lines arbitrary: st)
  case Nil
  then show ?case by simp
next
  case (Cons line rest)
  obtain st1 err where step: "tail_line jl line st = (st1, err)"
    by (cases "tail_line jl line st")
  with Cons.prems(2) have agree: "tools_agree st1"
    using tail_line_agree [of st jl line] by simp
  from Cons.prems(1) step have "tail_scan jl rest st1 = Inr st'"
    by (auto split: option.splits if_splits)
  from Cons.IH [OF this agree] show ?case .
qed

lemma last_five:
  "length (slice_from (- 5) xs) \<le> 5 \<and>
   (slice_from (- 5) xs \<noteq> [] \<longrightarrow> xs \<noteq> [] \<and> last (slice_from (- 5) xs) = last xs)"
  by (auto simp add: slice_from_def)

lemma recorded_nothing: "recorded st [] st"
  by (simp add: recorded_def)

lemma recorded_then:
  "recorded st a st1 \<Longrightarrow> recorded st1 b st2 \<Longrightarrow> recorded st (a @ b) st2"
  by (auto simp add: recorded_def)

lemma tool_names_Cons: "tool_names (b # bs) = tool_names [b] @ tool_names bs"
  by (simp add: tool_names_def)

lemma block_step_records:
  assumes "is_text_block c \<longrightarrow> has_text c"
  shows "block_step c st \<noteq> Inl KeyError \<and>
         (\<forall>st'. block_step c st = Inr st' \<longrightarrow> recorded st (tool_names [c]) st')"
proof (cases c)
  case (JObj kvs)
  with assms show ?thesis
    by (auto simp add: block_step_def recorded_def tool_names_def is_tool_use_def
        is_text_block_def has_text_def item_def field_def
        split: option.splits json.splits)
qed (simp_all add: block_step_def recorded_def tool_names_def is_tool_use_def)

lemma assistant_blocks_records:
  assumes "\<forall>b \<in> set blocks. is_text_block b \<longrightarrow> has_text b"
  shows "snd (assistant_blocks blocks st) \<noteq> Some KeyError \<and>
         (snd (assistant_blocks blocks st) = None \<longrightarrow>
            recorded st (tool_names blocks) (fst (assistant_blocks blocks st)))"
  using assms
proof (induction blocks arbitrary: st)
  case Nil
  then show ?case by (simp add: recorded_def tool_names_def)
next
  case (Cons b bs)
  then have b: "is_text_block b \<longrightarrow> has_text b"
    and bs: "\<forall>b \<in> set bs. is_text_block b \<longrightarrow> has_text b"
    by simp_all
  note step = block_step_records [OF b, of st]
  show ?case
  proof (cases "block_step b st")
    case (Inl e)
    with step show ?thesis by auto
  next
    case (Inr st1)
    with step have first: "recorded st (tool_names [b]) st1" by simp
    from Cons.IH [OF bs, of st1] first Inr show ?thesis
      by (auto simp add: tool_names_Cons [of b bs] intro: recorded_then)
  qed
qed

lemma tail_tool_names_Cons:
  "tail_tool_names jl (line # rest) =
     (case jl (strip line) of None \<Rightarrow> [] | Some d \<Rightarrow> tool_names (assistant_content d)) @
     tail_tool_names jl rest"
  by (simp add: tail_tool_names_def parseable_def split: option.splits)

lemma recorded_last_user: "recorded st [] (st\<lparr>last_user := u\<rparr>)"
  by (simp add: recorded_def)

lemma tail_line_records:
  assumes wf: "\<forall>d. jl (strip line) = Some d \<longrightarrow>
                 (\<forall>b \<in> set (assistant_content d). is_text_block b \<longrightarrow> has_text b)"
    and caught: "snd (tail_line jl line st) = None \<or> snd (tail_line jl line st) = Some KeyError"
  shows "recorded st
           (case jl (strip line) of None \<Rightarrow> [] | Some d \<Rightarrow> tool_names (assistant_content d))
           (fst (tail_line jl line st))"
proof (cases "jl (strip line)")
  case None
  then show ?thesis by (simp add: tail_line_def recorded_nothing)
next
  case (Some d)
  show ?thesis
  proof (cases d)
    case (JObj kvs)
    define t where "t = (case map_of kvs ''type'' of Some v \<Rightarrow> v | None \<Rightarrow> JStr [])"
    have ty: "get d ''type'' (JStr []) = Inr t" "field d ''type'' (JStr []) = t"
      by (simp_all add: JObj t_def field_def)
    show ?thesis
    proof (cases "t = JStr ''assistant''")
      case False
      then have none: "assistant_content d = []"
        by (simp add: assistant_content_def ty)
      from False show ?thesis
        by (auto simp add: tail_line_def Some ty none tool_names_def recorded_nothing
            recorded_last_user split: sum.splits)
    next
      case True
      define msg where "msg = (case map_of kvs ''message'' of Some v \<Rightarrow> v | None \<Rightarrow> JObj [])"
      have m: "get d ''message'' (JObj []) = Inr msg" "field d ''message'' (JObj []) = msg"
        by (simp_all add: JObj msg_def field_def)
      show ?thesis
      proof (cases msg)
        case (JObj mkvs)
        define content where
          "content = (case map_of mkvs ''content'' of Some v \<Rightarrow> v | None \<Rightarrow> JArr [])"
        have c: "get (JObj mkvs) ''content'' (JArr []) = Inr content"
          "field (JObj mkvs) ''content'' (JArr []) = content"
          by (simp_all add: content_def field_def)
        show ?thesis
        proof (cases content)
          case (JArr blocks)
          have blocks: "assistant_content d = blocks"
            by (simp add: assistant_content_def ty True m JObj c JArr)
          with wf Some have "\<forall>b \<in> set blocks. is_text_block b \<longrightarrow> has_text b" by simp
          note rec = assistant_blocks_records [OF this, of st]
          have line: "tail_line jl line st = assistant_blocks blocks st"
            by (simp add: tail_line_def Some ty True m JObj c JArr del: get.simps)
          from caught rec show ?thesis
            by (auto simp add: line Some blocks)
        qed (simp_all add: tail_line_def Some ty True m JObj c assistant_content_def
            tool_names_def recorded_nothing del: get.simps)
      qed (simp_all add: tail_line_def Some ty True m assistant_content_def
          tool_names_def recorded_nothing)
    qed
  qed (use caught in \<open>simp_all add: tail_line_def Some\<close>)
qed

lemma tail_scan_records:
  assumes "tail_scan jl lines st = Inr st'"
    and "\<forall>line \<in> set lines. \<forall>d. jl (strip line) = Some d \<longrightarrow>
           (\<forall>b \<in> set (assistant_content d). is_text_block b \<longrightarrow> has_text b)"
  shows "recorded st (tail_tool_names jl lines) st'"
  using assms
proof (induction lines arbitrary: st)
  case Nil
  then show ?case by (simp add: tail_tool_names_def parseable_def recorded_nothing)
next
  case (Cons line rest)
  obtain st1 err where step: "tail_line jl line st = (st1, err)"
    by (cases "tail_line jl line st")
  from Cons.prems(1) step have caught: "err = None \<or> err = Some KeyError"
    and rest: "tail_scan jl rest st1 = Inr st'"
    by (auto split: option.splits if_splits)
  from Cons.prems(2)
  have wf: "\<forall>d. jl (strip line) = Some d \<longrightarrow>
              (\<forall>b \<in> set (assistant_content d). is_text_block b \<longrightarrow> has_text b)"
    and wfs: "\<forall>line \<in> set rest. \<forall>d. jl (strip line) = Some d \<longrightarrow>
           (\<forall>b \<in> set (assistant_content d). is_text_block b \<longrightarrow> has_text b)"
    by simp_all
  from tail_line_records [where jl = jl and line = line and st = st, OF wf] step caught
  have "recorded st
           (case jl (strip line) of None \<Rightarrow> [] | Some d \<Rightarrow> tool_names (assistant_content d)) st1"
    by simp
  from recorded_then [OF this Cons.IH [OF rest wfs]] show ?case
    by (simp add: tail_tool_names_Cons)
qed

text \<open>
  C10, as the code has it. For every transcript that can be read, the context that the
  extractor returns has at most 5 elements in \<open>recentTools\<close>, and whenever
  \<open>recentTools\<close> is not empty, \<open>lastTool\<close> is its final element. A line of
  the tail is given up at a text block without a text, the tool calls behind that block
  are then not recorded. Where every text block of the assistant lines in the scanned
  tail has a text, \<open>recentTools\<close> holds the last 5 names of the tool calls of the
  scanned tail, in order, and \<open>lastTool\<close> is the name of the most recent of them
  (\<open>None\<close> when there is no tool call).
\<close>

theorem recent_tools_last_tool:
  assumes ret: "extract_session_context json_loads (Some lines) max_tail_lines = Inr (Some ctx)"
  shows "length (recentTools ctx) \<le> 5 \<and>
         (recentTools ctx \<noteq> [] \<longrightarrow> lastTool ctx = last (recentTools ctx)) \<and>
         ((\<forall>line \<in> set (slice_from (- max_tail_lines) lines).
             \<forall>d. json_loads (strip line) = Some d \<longrightarrow>
               (\<forall>b \<in> set (assistant_content d). is_text_block b \<longrightarrow> has_text b)) \<longrightarrow>
          recentTools ctx =
            slice_from (- 5) (tail_tool_names json_loads (slice_from (- max_tail_lines) lines)) \<and>
          lastTool ctx =
            (if tail_tool_names json_loads (slice_from (- max_tail_lines) lines) = [] then JNull
             else last (tail_tool_names json_loads (slice_from (- max_tail_lines) lines))))"
proof -
  let ?start = "\<lparr>last_user = None, last_assistant = None, recent_tools = [],
                 last_tool_name = JNull\<rparr>"
  from ret obtain first_user st where
    scan: "tail_scan json_loads (slice_from (- max_tail_lines) lines) ?start = Inr st"
    and ctx: "recentTools ctx = slice_from (- 5) (recent_tools st)"
             "lastTool ctx = last_tool_name st"
    by (auto simp add: extract_session_context_def split: sum.splits)
  have "tools_agree ?start"
    by (simp add: tools_agree_def)
  with scan have "tools_agree st" by (rule tail_scan_agree)
  with last_five [of "recent_tools st"]
  have always: "length (recentTools ctx) \<le> 5 \<and>
         (recentTools ctx \<noteq> [] \<longrightarrow> lastTool ctx = last (recentTools ctx))"
    by (auto simp add: ctx tools_agree_def)
  have complete: "recentTools ctx =
            slice_from (- 5) (tail_tool_names json_loads (slice_from (- max_tail_lines) lines)) \<and>
          lastTool ctx =
            (if tail_tool_names json_loads (slice_from (- max_tail_lines) lines) = [] then JNull
             else last (tail_tool_names json_loads (slice_from (- max_tail_lines) lines)))"
    if "\<forall>line \<in> set (slice_from (- max_tail_lines) lines).
             \<forall>d. json_loads (strip line) = Some d \<longrightarrow>
               (\<forall>b \<in> set (assistant_content d). is_text_block b \<longrightarrow> has_text b)"
    using tail_scan_records [OF scan that] by (simp add: recorded_def ctx)
  from always complete show ?thesis by blast
qed

lemma transcript_example_lines:
  "slice_from (- 80) transcript_example = transcript_example"
  "loads_transcript (strip (line_user @ [CHR 0x0A])) =
     Some (JObj [(''type'', JStr ''user''),
                 (''message'', JObj [(''content'', JStr ''fix the bug'')])])"
  "loads_transcript (strip (''not json'' @ [CHR 0x0A])) = None"
  "loads_transcript (strip (line_tools @ [CHR 0x0A])) =
     Some (JObj [(''type'', JStr ''assistant''),
               (''message'', JObj [(''content'',
                  JArr [JObj [(''type'', JStr ''tool_use''), (''name'', JStr ''Read'')],
                        JObj [(''type'', JStr ''text''), (''text'', JStr ''ok'')],
                        JObj [(''type'', JStr ''tool_use''), (''name'', JStr ''Edit'')],
                        JObj [(''type'', JStr ''tool_use''), (''name'', JStr ''Bash'')]])])])"
  by code_simp+

lemma transcript_example_context:
  "extract_session_context loads_transcript (Some transcript_example) 80 =
     Inr (Some \<lparr>firstPrompt_c = Some ''fix the bug'', lastUserMessage = Some ''fix the bug'',
                 lastAssistantResponse = Some ''ok'',
                 recentTools = [JStr ''Edit'', JStr ''Bash'', JStr ''Read'', JStr ''Edit'',
                                JStr ''Bash''],
                 lastTool = JStr ''Bash''\<rparr>)"
  "tail_tool_names loads_transcript transcript_example =
     [JStr ''Read'', JStr ''Edit'', JStr ''Bash'', JStr ''Read'', JStr ''Edit'', JStr ''Bash'']"
  by code_simp+

theorem recent_tools_last_tool_witness:
  "extract_session_context loads_transcript (Some transcript_example) 80 =
     Inr (Some \<lparr>firstPrompt_c = Some ''fix the bug'', lastUserMessage = Some ''fix the bug'',
                 lastAssistantResponse = Some ''ok'',
                 recentTools = [JStr ''Edit'', JStr ''Bash'', JStr ''Read'', JStr ''Edit'',
                                JStr ''Bash''],
                 lastTool = JStr ''Bash''\<rparr>) \<and>
   tail_tool_names loads_transcript (slice_from (- 80) transcript_example) =
     [JStr ''Read'', JStr ''Edit'', JStr ''Bash'', JStr ''Read'', JStr ''Edit'', JStr ''Bash''] \<and>
   [JStr ''Edit'', JStr ''Bash'', JStr ''Read'', JStr ''Edit'', JStr ''Bash''] =
     slice_from (- 5)
       (tail_tool_names loads_transcript (slice_from (- 80) transcript_example)) \<and>
   JStr ''Bash'' = last (tail_tool_names loads_transcript (slice_from (- 80) transcript_example))"
proof -
  have decoded: "d = JObj [(''type'', JStr ''user''),
                           (''message'', JObj [(''content'', JStr ''fix the bug'')])] \<or>
      d = JObj [(''type'', JStr ''assistant''),
               (''message'', JObj [(''content'',
                  JArr [JObj [(''type'', JStr ''tool_use''), (''name'', JStr ''Read'')],
                        JObj [(''type'', JStr ''text''), (''text'', JStr ''ok'')],
                        JObj [(''type'', JStr ''tool_use''), (''name'', JStr ''Edit'')],
                        JObj [(''type'', JStr ''tool_use''), (''name'', JStr ''Bash'')]])])]"
    if "loads_transcript s = Some d" for s d
    using that by (auto simp add: loads_transcript_def split: if_splits)
  have complete: "\<forall>line \<in> set (slice_from (- 80) transcript_example).
      \<forall>d. loads_transcript (strip line) = Some d \<longrightarrow>
        (\<forall>b \<in> set (assistant_content d). is_text_block b \<longrightarrow> has_text b)"
  proof (intro ballI allI impI)
    fix line d b
    assume dec: "loads_transcript (strip line) = Some d"
      and b: "b \<in> set (assistant_content d)" "is_text_block b"
    from dec have "d = JObj [(''type'', JStr ''user''),
                           (''message'', JObj [(''content'', JStr ''fix the bug'')])] \<or>
      d = JObj [(''type'', JStr ''assistant''),
               (''message'', JObj [(''content'',
                  JArr [JObj [(''type'', JStr ''tool_use''), (''name'', JStr ''Read'')],
                        JObj [(''type'', JStr ''text''), (''text'', JStr ''ok'')],
                        JObj [(''type'', JStr ''tool_use''), (''name'', JStr ''Edit'')],
                        JObj [(''type'', JStr ''tool_use''), (''name'', JStr ''Bash'')]])])]"
      by (rule decoded)
    then show "has_text b"
    proof
      assume "d = JObj [(''type'', JStr ''user''),
                           (''message'', JObj [(''content'', JStr ''fix the bug'')])]"
      with b show ?thesis by (simp add: assistant_content_def field_def)
    next
      assume "d = JObj [(''type'', JStr ''assistant''),
               (''message'', JObj [(''content'',
                  JArr [JObj [(''type'', JStr ''tool_use''), (''name'', JStr ''Read'')],
                        JObj [(''type'', JStr ''text''), (''text'', JStr ''ok'')],
                        JObj [(''type'', JStr ''tool_use''), (''name'', JStr ''Edit'')],
                        JObj [(''type'', JStr ''tool_use''), (''name'', JStr ''Bash'')]])])]"
      with b show ?thesis
        by (auto simp add: assistant_content_def field_def is_text_block_def has_text_def)
    qed
  qed
  have names: "tail_tool_names loads_transcript (slice_from (- 80) transcript_example) =
      [JStr ''Read'', JStr ''Edit'', JStr ''Bash'', JStr ''Read'', JStr ''Edit'', JStr ''Bash'']"
    by (simp only: transcript_example_lines(1) transcript_example_context(2))
  from recent_tools_last_tool [OF transcript_example_context(1)] complete
  have "recentTools \<lparr>firstPrompt_c = Some ''fix the bug'', lastUserMessage = Some ''fix the bug'',
                 lastAssistantResponse = Some ''ok'',
                 recentTools = [JStr ''Edit'', JStr ''Bash'', JStr ''Read'', JStr ''Edit'',
                                JStr ''Bash''],
                 lastTool = JStr ''Bash''\<rparr> =
          slice_from (- 5)
            (tail_tool_names loads_transcript (slice_from (- 80) transcript_example))"
    by blast
  moreover have "slice_from (- 5)
      [JStr ''Read'', JStr ''Edit'', JStr ''Bash'', JStr ''Read'', JStr ''Edit'', JStr ''Bash''] =
      [JStr ''Edit'', JStr ''Bash'', JStr ''Read'', JStr ''Edit'', JStr ''Bash'']"
    by (simp add: slice_from_def)
  ultimately show ?thesis
    unfolding names by (simp add: transcript_example_context(1))
qed

text \<open>
  The claim C10 as it is written, with \<open>lastTool\<close> the name of the most recent tool
  call in the scanned tail, fails on a line that is given up half way. The line here
  holds the tool calls \<open>Read\<close> and \<open>Bash\<close> with a text block without a text between
  them: the \<open>KeyError\<close> ends the line after \<open>Read\<close>, and \<open>lastTool\<close> is
  \<open>Read\<close> although the most recent tool call of the tail is \<open>Bash\<close>.
\<close>

theorem recent_tools_counterexample:
  "loads_abandoned (strip (line_abandoned @ [CHR 0x0A])) = Some abandoned_entry \<and>
   tail_tool_names loads_abandoned (slice_from (- 80) [line_abandoned @ [CHR 0x0A]]) =
     [JStr ''Read'', JStr ''Bash''] \<and>
   extract_session_context loads_abandoned (Some [line_abandoned @ [CHR 0x0A]]) 80 =
     Inr (Some \<lparr>firstPrompt_c = None, lastUserMessage = None, lastAssistantResponse = None,
                 recentTools = [JStr ''Read''], lastTool = JStr ''Read''\<rparr>)"
  by code_simp


end
